theory Spec2Isabelle
  imports Complex_Main "HOL-Library.AList"
begin

section \<open>JavaScript values, truthiness and thrown errors\<close>

text \<open>
  Tool arguments, initialisation data and handler results are dynamically typed
  (\<^verbatim>\<open>any\<close>) in the source. They are modelled by the values JSON can carry plus
  \<^verbatim>\<open>undefined\<close>. A number is an integer here: the code only ever tests a number
  for truthiness and for its \<^verbatim>\<open>typeof\<close>.
\<close>

datatype js_value =
    JUndefined
  | JNull
  | JBool bool
  | JNumber int
  | JString string
  | JArray "js_value list"
  | JObject "(string \<times> js_value) list"

datatype js_type = TUndefined | TObject | TBoolean | TNumber | TString

text \<open>The \<^verbatim>\<open>typeof\<close> operator: \<^verbatim>\<open>null\<close>, arrays and objects are all \<^verbatim>\<open>'object'\<close>.\<close>

fun typeof :: "js_value \<Rightarrow> js_type" where
  "typeof JUndefined = TUndefined"
| "typeof JNull = TObject"
| "typeof (JBool b) = TBoolean"
| "typeof (JNumber n) = TNumber"
| "typeof (JString s) = TString"
| "typeof (JArray xs) = TObject"
| "typeof (JObject kvs) = TObject"

text \<open>The values for which \<^verbatim>\<open>!v\<close> is true.\<close>

fun falsy :: "js_value \<Rightarrow> bool" where
  "falsy JUndefined = True"
| "falsy JNull = True"
| "falsy (JBool b) = (\<not> b)"
| "falsy (JNumber n) = (n = 0)"
| "falsy (JString s) = (s = [])"
| "falsy (JArray xs) = False"
| "falsy (JObject kvs) = False"

text \<open>
  What a \<^verbatim>\<open>throw\<close> carries: an \<^verbatim>\<open>Error\<close> with its message, an
  \<^verbatim>\<open>McpError\<close> with the JSON-RPC code and the message the code passes to its
  constructor, or a value that is not an \<^verbatim>\<open>Error\<close>.
\<close>

datatype thrown = Error string | McpError int string | NonError js_value

definition MethodNotFound :: int where "MethodNotFound = - 32601"
definition InternalError :: int where "InternalError = - 32603"

section \<open>Strings\<close>

text \<open>
  Strings are lists of characters. On a string of ASCII characters,
  \<^verbatim>\<open>toLowerCase\<close> maps the letters A to Z to a to z and leaves every other
  character alone, and so does the function below. On other strings the JavaScript
  function also changes letters outside ASCII and can change the length, which the
  function below does not do: what is proved of lower-cased strings is stated for
  ASCII strings.
\<close>

definition ascii :: "string \<Rightarrow> bool" where
  "ascii s = list_all (\<lambda>c. \<not> digit7 c) s"

definition toLowerChar :: "char \<Rightarrow> char" where
  "toLowerChar c =
     (case map_of (zip ''ABCDEFGHIJKLMNOPQRSTUVWXYZ'' ''abcdefghijklmnopqrstuvwxyz'') c of
        Some l \<Rightarrow> l
      | None \<Rightarrow> c)"

definition toLowerCase :: "string \<Rightarrow> string" where
  "toLowerCase s = map toLowerChar s"

fun startsWith :: "string \<Rightarrow> string \<Rightarrow> bool" where
  "startsWith text [] = True"
| "startsWith [] (p # ps) = False"
| "startsWith (c # cs) (p # ps) = (c = p \<and> startsWith cs ps)"

text \<open>\<^verbatim>\<open>text.includes(pat)\<close>: the pattern occurs at some position of the text.\<close>

fun str_includes :: "string \<Rightarrow> string \<Rightarrow> bool" where
  "str_includes [] pat = (pat = [])"
| "str_includes (c # cs) pat = (startsWith (c # cs) pat \<or> str_includes cs pat)"

text \<open>\<^verbatim>\<open>s.split(' ')\<close>: the empty string splits into one empty word.\<close>

fun split_space :: "string \<Rightarrow> string list" where
  "split_space [] = [[]]"
| "split_space (c # cs) =
     (if c = CHR '' '' then [] # split_space cs
      else (case split_space cs of
              [] \<Rightarrow> [[c]]
            | w # ws \<Rightarrow> (c # w) # ws))"

section \<open>Built-in middleware: validation\<close>

text \<open>
  \<^verbatim>\<open>ValidationMiddleware.beforeToolCall\<close>: throws when
  \<^verbatim>\<open>!params || typeof params !== 'object'\<close>.
\<close>

definition validation_beforeToolCall :: "string \<Rightarrow> js_value \<Rightarrow> thrown + unit" where
  "validation_beforeToolCall toolName params =
     (if falsy params \<or> typeof params \<noteq> TObject
      then Inl (Error (''Invalid parameters for tool '' @ toolName @ '': expected object''))
      else Inr ())"

section \<open>Rule-based intent confidence\<close>

text \<open>\<^verbatim>\<open>fuzzyMatch\<close>: every space-separated word of the pattern occurs in the text.\<close>

definition fuzzyMatch :: "string \<Rightarrow> string \<Rightarrow> bool" where
  "fuzzyMatch text pattern = list_all (str_includes text) (split_space pattern)"

text \<open>
  The loop of \<^verbatim>\<open>calculateConfidence\<close> over the triggers, with the running
  \<^verbatim>\<open>maxConfidence\<close> as accumulator. Confidences are exact rationals; the values
  the code produces are 1, 0.6, 0 and \<^verbatim>\<open>ratio * 0.8\<close>.
\<close>

fun confidence_loop :: "string \<Rightarrow> string list \<Rightarrow> rat \<Rightarrow> rat" where
  "confidence_loop lowerMessage [] maxConfidence = maxConfidence"
| "confidence_loop lowerMessage (trigger # triggers) maxConfidence =
     (let lowerTrigger = toLowerCase trigger in
      if lowerMessage = lowerTrigger
      then confidence_loop lowerMessage triggers (max maxConfidence 1)
      else if str_includes lowerMessage lowerTrigger
      then (let ratio = of_nat (length lowerTrigger) / of_nat (length lowerMessage)
            in confidence_loop lowerMessage triggers (max maxConfidence (ratio * (8 / 10))))
      else if fuzzyMatch lowerMessage lowerTrigger
      then confidence_loop lowerMessage triggers (max maxConfidence (6 / 10))
      else confidence_loop lowerMessage triggers maxConfidence)"

definition calculateConfidence :: "string \<Rightarrow> string list \<Rightarrow> rat" where
  "calculateConfidence message triggers = confidence_loop (toLowerCase message) triggers 0"

section \<open>Built-in middleware: rate limit\<close>

text \<open>
  \<^verbatim>\<open>RateLimitMiddleware\<close>: per tool name a record \<^verbatim>\<open>{count, resetTime}\<close>,
  and the configuration \<^verbatim>\<open>maxCalls\<close>, \<^verbatim>\<open>windowMs\<close>. Times are milliseconds
  as \<^verbatim>\<open>Date.now()\<close> returns them; the time of each call is an input. The
  constructor takes any number for \<^verbatim>\<open>maxCalls\<close>: it is a rational here, which
  covers every finite number (a count is compared with it, nothing is computed from
  it); \<^verbatim>\<open>NaN\<close> and the infinities are left out. \<^verbatim>\<open>windowMs\<close> is a whole
  number of milliseconds, so that \<^verbatim>\<open>now + windowMs\<close> is exact.
\<close>

record rate_record =
  count :: int
  resetTime :: int

record rate_limit =
  callCounts :: "string \<rightharpoonup> rate_record"
  maxCalls :: rat
  windowMs :: int

definition new_RateLimitMiddleware :: "rat \<Rightarrow> int \<Rightarrow> rate_limit" where
  "new_RateLimitMiddleware maxCalls' windowMs' =
     \<lparr>callCounts = Map.empty, maxCalls = maxCalls', windowMs = windowMs'\<rparr>"

text \<open>
  \<^verbatim>\<open>RateLimitMiddleware.beforeToolCall\<close>, returning the outcome (\<open>Inl\<close> the error
  thrown) and the middleware's state afterwards.
\<close>

definition rateLimit_beforeToolCall ::
    "int \<Rightarrow> string \<Rightarrow> rate_limit \<Rightarrow> (thrown + unit) \<times> rate_limit" where
  "rateLimit_beforeToolCall now toolName rl =
     (let fresh = rl\<lparr>callCounts := (callCounts rl)
                    (toolName \<mapsto> \<lparr>count = 1, resetTime = now + windowMs rl\<rparr>)\<rparr>
      in case callCounts rl toolName of
           None \<Rightarrow> (Inr (), fresh)
         | Some rec \<Rightarrow>
             if now > resetTime rec then (Inr (), fresh)
             else if of_int (count rec) \<ge> maxCalls rl
             then (Inl (Error (''Rate limit exceeded for tool '' @ toolName)), rl)
             else (Inr (), rl\<lparr>callCounts := (callCounts rl)
                              (toolName \<mapsto> rec\<lparr>count := count rec + 1\<rparr>)\<rparr>))"

text \<open>
  A timed sequence of calls \<open>(now, toolName)\<close> run through the middleware: the calls
  that pass, in order.
\<close>

fun passed_calls :: "rate_limit \<Rightarrow> (int \<times> string) list \<Rightarrow> (int \<times> string) list" where
  "passed_calls rl [] = []"
| "passed_calls rl ((now, toolName) # calls) =
     (case rateLimit_beforeToolCall now toolName rl of
        (Inl e, rl') \<Rightarrow> passed_calls rl' calls
      | (Inr u, rl') \<Rightarrow> (now, toolName) # passed_calls rl' calls)"

text \<open>The number of passing calls of a tool, in all and within the window
  \<open>[start, start + windowMs)\<close>.\<close>

definition passed_for :: "rate_limit \<Rightarrow> (int \<times> string) list \<Rightarrow> string \<Rightarrow> int" where
  "passed_for rl calls toolName =
     int (length (filter (\<lambda>(t, n). n = toolName) (passed_calls rl calls)))"

definition passed_in_window ::
    "rate_limit \<Rightarrow> (int \<times> string) list \<Rightarrow> string \<Rightarrow> int \<Rightarrow> int" where
  "passed_in_window rl calls toolName start =
     int (length (filter (\<lambda>(t, n). n = toolName \<and> start \<le> t \<and> t < start + windowMs rl)
                         (passed_calls rl calls)))"

section \<open>Plugin host\<close>

text \<open>
  What the model observes of the outside world, in order: the lines given to the
  logger, the calls of a plugin's \<^verbatim>\<open>shutdown\<close>, the calls of a tool handler and of
  the middleware hooks (the hook's middleware name, then the tool name).
\<close>

datatype log_level = LDebug | LInfo | LWarn | LError

datatype event =
    Logged log_level string
  | ShutdownCalled string
  | HandlerCalled string
  | BeforeToolCall string string
  | AfterToolCall string string
  | OnError string string

text \<open>
  A tool's handler is given the arguments and a call context; the model keeps the
  arguments. The call context is \<open>createToolExecutionContext\<close> below.
\<close>

record tool =
  tool_name :: string
  tool_description :: string
  inputSchema :: js_value
  handler :: "js_value \<Rightarrow> thrown + js_value"

record resource =
  uri :: string
  resource_name :: string
  mimeType :: "string option"
  resource_handler :: "thrown + js_value"

record prompt =
  prompt_name :: string
  prompt_description :: string
  prompt_handler :: "js_value \<Rightarrow> thrown + js_value"

record plugin_metadata =
  plugin_id :: string
  plugin_name :: string
  version :: string

text \<open>
  A plugin's \<^verbatim>\<open>initialize\<close> is code of the plugin run with the registration context
  as \<^verbatim>\<open>this\<close>. The host sees of it the calls it makes on the context, in order, and
  whether it then returns or throws. \<^verbatim>\<open>shutdown\<close> is optional; when present it
  returns or throws.
\<close>

datatype init_step =
    RegisterTool tool
  | RegisterResource resource
  | RegisterPrompt prompt
  | Throw thrown

record plugin =
  metadata :: "plugin_metadata option"
  initialize :: "init_step list"
  shutdown :: "(thrown + unit) option"

record request_context =
  rc_sessionId :: string
  rc_userId :: string
  currentWorkflow :: "string option"

text \<open>
  \<^verbatim>\<open>PluginManager\<close>. A JavaScript \<^verbatim>\<open>Map\<close> iterates in insertion order, so each
  registry is an association list: \<^verbatim>\<open>set\<close> is \<^const>\<open>AList.update\<close> (an existing key
  keeps its place, a new key goes last), \<^verbatim>\<open>get\<close> is \<^const>\<open>map_of\<close>.
\<close>

record plugin_manager =
  plugins :: "(string \<times> plugin) list"
  tools :: "(string \<times> tool) list"
  resources :: "(string \<times> resource) list"
  prompts :: "(string \<times> prompt) list"
  currentRequestContext :: "request_context option"
  workflowStates :: "(string \<times> js_value) list"
  events :: "event list"

definition new_PluginManager :: plugin_manager where
  "new_PluginManager =
     \<lparr>plugins = [], tools = [], resources = [], prompts = [],
      currentRequestContext = None, workflowStates = [], events = []\<rparr>"

definition emit :: "event \<Rightarrow> plugin_manager \<Rightarrow> plugin_manager" where
  "emit e pm = pm\<lparr>events := events pm @ [e]\<rparr>"

definition getTool :: "plugin_manager \<Rightarrow> string \<Rightarrow> tool option" where
  "getTool pm name = map_of (tools pm) name"

definition getResource :: "plugin_manager \<Rightarrow> string \<Rightarrow> resource option" where
  "getResource pm u = map_of (resources pm) u"

definition getPrompt :: "plugin_manager \<Rightarrow> string \<Rightarrow> prompt option" where
  "getPrompt pm name = map_of (prompts pm) name"

definition getLoadedPluginNames :: "plugin_manager \<Rightarrow> string list" where
  "getLoadedPluginNames pm = map fst (plugins pm)"

text \<open>
  The \<^verbatim>\<open>PluginContext\<close> interface: its three registration methods, each acting on
  the host's state and returning or throwing.
\<close>

record plugin_context =
  registerTool :: "tool \<Rightarrow> plugin_manager \<Rightarrow> (thrown + unit) \<times> plugin_manager"
  registerResource :: "resource \<Rightarrow> plugin_manager \<Rightarrow> (thrown + unit) \<times> plugin_manager"
  registerPrompt :: "prompt \<Rightarrow> plugin_manager \<Rightarrow> (thrown + unit) \<times> plugin_manager"
  config :: js_value

text \<open>\<^verbatim>\<open>createPluginContext\<close>: the registration context handed to \<^verbatim>\<open>initialize\<close>.\<close>

definition createPluginContext :: "string \<Rightarrow> js_value \<Rightarrow> plugin_context" where
  "createPluginContext pluginId cfg =
     \<lparr>registerTool = (\<lambda>t pm.
        (let fullName = pluginId @ '':'' @ tool_name t
         in (Inr (), emit (Logged LDebug (''Registered tool: '' @ fullName))
                       (pm\<lparr>tools := AList.update fullName t (tools pm)\<rparr>)))),
      registerResource = (\<lambda>r pm.
        (Inr (), emit (Logged LDebug (''Registered resource: '' @ uri r))
                   (pm\<lparr>resources := AList.update (uri r) r (resources pm)\<rparr>))),
      registerPrompt = (\<lambda>p pm.
        (let fullName = pluginId @ '':'' @ prompt_name p
         in (Inr (), emit (Logged LDebug (''Registered prompt: '' @ fullName))
                       (pm\<lparr>prompts := AList.update fullName p (prompts pm)\<rparr>)))),
      config = (if falsy cfg then JObject [] else cfg)\<rparr>"

text \<open>
  \<^verbatim>\<open>createToolExecutionContext\<close>: the context handed to handlers, whose registration
  methods throw.
\<close>

definition createToolExecutionContext :: plugin_context where
  "createToolExecutionContext =
     \<lparr>registerTool = (\<lambda>t pm. (Inl (Error ''Cannot register tools during execution''), pm)),
      registerResource =
        (\<lambda>r pm. (Inl (Error ''Cannot register resources during execution''), pm)),
      registerPrompt = (\<lambda>p pm. (Inl (Error ''Cannot register prompts during execution''), pm)),
      config = JObject []\<rparr>"

text \<open>Running \<^verbatim>\<open>plugin.initialize.call(context)\<close>.\<close>

fun run_initialize ::
    "plugin_context \<Rightarrow> init_step list \<Rightarrow> plugin_manager \<Rightarrow> (thrown + unit) \<times> plugin_manager" where
  "run_initialize ctx [] pm = (Inr (), pm)"
| "run_initialize ctx (RegisterTool t # steps) pm =
     (case registerTool ctx t pm of
        (Inl e, pm') \<Rightarrow> (Inl e, pm')
      | (Inr u, pm') \<Rightarrow> run_initialize ctx steps pm')"
| "run_initialize ctx (RegisterResource r # steps) pm =
     (case registerResource ctx r pm of
        (Inl e, pm') \<Rightarrow> (Inl e, pm')
      | (Inr u, pm') \<Rightarrow> run_initialize ctx steps pm')"
| "run_initialize ctx (RegisterPrompt p # steps) pm =
     (case registerPrompt ctx p pm of
        (Inl e, pm') \<Rightarrow> (Inl e, pm')
      | (Inr u, pm') \<Rightarrow> run_initialize ctx steps pm')"
| "run_initialize ctx (Throw e # steps) pm = (Inl e, pm)"

text \<open>
  \<^verbatim>\<open>registerPlugin\<close>: the body of its \<^verbatim>\<open>try\<close>, then the whole method with the
  \<^verbatim>\<open>catch\<close> that logs and rethrows.
\<close>

definition registerPlugin_body ::
    "plugin \<Rightarrow> js_value \<Rightarrow> plugin_manager \<Rightarrow> (thrown + unit) \<times> plugin_manager" where
  "registerPlugin_body p cfg pm =
     (case metadata p of
        None \<Rightarrow> (Inl (Error ''Plugin missing required metadata''), pm)
      | Some md \<Rightarrow>
          if plugin_id md = [] then (Inl (Error ''Plugin missing required metadata''), pm)
          else if map_of (plugins pm) (plugin_id md) \<noteq> None
          then (Inl (Error (''Plugin already registered: '' @ plugin_id md)), pm)
          else (case run_initialize (createPluginContext (plugin_id md) cfg) (initialize p) pm of
                  (Inl e, pm') \<Rightarrow> (Inl e, pm')
                | (Inr u, pm') \<Rightarrow>
                    (Inr (),
                     emit (Logged LInfo
                             (''Registered plugin: '' @ plugin_name md @ '' v'' @ version md))
                       (pm'\<lparr>plugins := AList.update (plugin_id md) p (plugins pm')\<rparr>))))"

definition registerPlugin ::
    "plugin \<Rightarrow> js_value \<Rightarrow> plugin_manager \<Rightarrow> (thrown + unit) \<times> plugin_manager" where
  "registerPlugin p cfg pm =
     (case registerPlugin_body p cfg pm of
        (Inl e, pm') \<Rightarrow>
          (Inl e,
           emit (Logged LError
                   (''Failed to register plugin ''
                    @ (case metadata p of
                         None \<Rightarrow> ''unknown''
                       | Some md \<Rightarrow> if plugin_id md = [] then ''unknown'' else plugin_id md)
                    @ '':''))
             pm')
      | (Inr u, pm') \<Rightarrow> (Inr (), pm'))"

text \<open>
  \<^verbatim>\<open>shutdownPlugins\<close>: the loop over \<^verbatim>\<open>this.plugins\<close> in the \<^verbatim>\<open>Map\<close>'s
  iteration order, each \<^verbatim>\<open>shutdown\<close> inside its own \<^verbatim>\<open>try\<close>, then the clearing
  of every registry.
\<close>

fun shutdown_loop :: "(string \<times> plugin) list \<Rightarrow> plugin_manager \<Rightarrow> plugin_manager" where
  "shutdown_loop [] pm = pm"
| "shutdown_loop ((name, p) # rest) pm =
     (case shutdown p of
        None \<Rightarrow> shutdown_loop rest pm
      | Some (Inr u) \<Rightarrow>
          shutdown_loop rest
            (emit (Logged LInfo (''Shutdown plugin: '' @ name)) (emit (ShutdownCalled name) pm))
      | Some (Inl e) \<Rightarrow>
          shutdown_loop rest
            (emit (Logged LError (''Failed to shutdown plugin '' @ name @ '':''))
               (emit (ShutdownCalled name) pm)))"

definition shutdownPlugins :: "plugin_manager \<Rightarrow> plugin_manager" where
  "shutdownPlugins pm =
     (shutdown_loop (plugins pm) pm)
       \<lparr>plugins := [], tools := [], resources := [], prompts := [], workflowStates := []\<rparr>"

text \<open>The four registries of the host, and the \<^verbatim>\<open>shutdown\<close> calls among the events.\<close>

definition registries ::
    "plugin_manager \<Rightarrow>
     (string \<times> plugin) list \<times> (string \<times> tool) list \<times> (string \<times> resource) list
       \<times> (string \<times> prompt) list" where
  "registries pm = (plugins pm, tools pm, resources pm, prompts pm)"

fun shutdown_calls :: "event list \<Rightarrow> string list" where
  "shutdown_calls [] = []"
| "shutdown_calls (ShutdownCalled name # es) = name # shutdown_calls es"
| "shutdown_calls (e # es) = shutdown_calls es"
section \<open>Sample plugins\<close>

text \<open>
  The plugin \<^verbatim>\<open>demo\<close> with its tool \<^verbatim>\<open>echo\<close>, which returns its \<^verbatim>\<open>text\<close>
  argument, and three plugins that register nothing and differ in their
  \<^verbatim>\<open>shutdown\<close>.
\<close>

definition echo_tool :: tool where
  "echo_tool =
     \<lparr>tool_name = ''echo'', tool_description = ''Echo the text'',
      inputSchema = JObject [(''type'', JString ''object'')],
      handler = (\<lambda>args. case args of
                   JObject kvs \<Rightarrow> (case map_of kvs ''text'' of
                                    Some v \<Rightarrow> Inr v
                                  | None \<Rightarrow> Inr JUndefined)
                 | _ \<Rightarrow> Inr (JString ''no arguments''))\<rparr>"

definition demo_plugin :: plugin where
  "demo_plugin =
     \<lparr>metadata = Some \<lparr>plugin_id = ''demo'', plugin_name = ''Demo'', version = ''1.0.0''\<rparr>,
      initialize = [RegisterTool echo_tool],
      shutdown = None\<rparr>"

definition bare_plugin :: "string \<Rightarrow> (thrown + unit) option \<Rightarrow> plugin" where
  "bare_plugin pid sd =
     \<lparr>metadata = Some \<lparr>plugin_id = pid, plugin_name = pid, version = ''1.0.0''\<rparr>,
      initialize = [],
      shutdown = sd\<rparr>"
text \<open>
  A host on which plugin \<^verbatim>\<open>a\<close>, whose \<^verbatim>\<open>shutdown\<close> throws, and then plugin
  \<^verbatim>\<open>b\<close>, whose \<^verbatim>\<open>shutdown\<close> returns, have been registered; and a host with the
  plugin \<^verbatim>\<open>demo\<close>.
\<close>

definition host_a :: plugin_manager where
  "host_a =
     snd (registerPlugin (bare_plugin ''a'' (Some (Inl (Error ''boom'')))) JUndefined
            new_PluginManager)"

definition host_ab :: plugin_manager where
  "host_ab = snd (registerPlugin (bare_plugin ''b'' (Some (Inr ()))) JUndefined host_a)"

definition host_demo :: plugin_manager where
  "host_demo = snd (registerPlugin demo_plugin JUndefined new_PluginManager)"

text \<open>A tool that a plugin may try to add after its initialisation.\<close>

definition shout_tool :: tool where
  "shout_tool =
     \<lparr>tool_name = ''shout'', tool_description = ''Added after initialize'',
      inputSchema = JObject [], handler = (\<lambda>args. Inr (JString ''HI''))\<rparr>"

section \<open>Middleware pipeline and server kernel\<close>

text \<open>
  \<^verbatim>\<open>MCPMiddleware\<close>: a name and three optional hooks. A hook may keep state (the
  rate limiter does) and may throw; \<open>'w\<close> is the state the hooks of a server act on.
\<close>

record 'w mcp_middleware =
  mw_name :: string
  beforeToolCall :: "(string \<Rightarrow> js_value \<Rightarrow> 'w \<Rightarrow> (thrown + unit) \<times> 'w) option"
  afterToolCall :: "(string \<Rightarrow> js_value \<Rightarrow> js_value \<Rightarrow> 'w \<Rightarrow> (thrown + unit) \<times> 'w) option"
  onError :: "(thrown \<Rightarrow> string \<Rightarrow> string \<Rightarrow> 'w \<Rightarrow> (thrown + unit) \<times> 'w) option"

text \<open>
  The built-in middlewares. The logging middleware writes to the console, which is
  not modelled: its hooks return without effect, except that \<^verbatim>\<open>onError\<close> reads
  \<^verbatim>\<open>error.message\<close>, which throws a \<^verbatim>\<open>TypeError\<close> when the value thrown is
  \<^verbatim>\<open>null\<close> or \<^verbatim>\<open>undefined\<close>. The rate limiter reads the clock, which its
  state carries here.
\<close>

definition LoggingMiddleware :: "'w mcp_middleware" where
  "LoggingMiddleware =
     \<lparr>mw_name = ''logging'',
      beforeToolCall = Some (\<lambda>toolName params w. (Inr (), w)),
      afterToolCall = Some (\<lambda>toolName params result w. (Inr (), w)),
      onError = Some (\<lambda>error ctx details w.
        (case error of
           NonError JNull \<Rightarrow>
             Inl (Error ''Cannot read properties of null (reading 'message')'')
         | NonError JUndefined \<Rightarrow>
             Inl (Error ''Cannot read properties of undefined (reading 'message')'')
         | _ \<Rightarrow> Inr (),
         w))\<rparr>"

definition ValidationMiddleware :: "'w mcp_middleware" where
  "ValidationMiddleware =
     \<lparr>mw_name = ''validation'',
      beforeToolCall = Some (\<lambda>toolName params w. (validation_beforeToolCall toolName params, w)),
      afterToolCall = None,
      onError = None\<rparr>"

definition RateLimitMiddleware :: "(int \<times> rate_limit) mcp_middleware" where
  "RateLimitMiddleware =
     \<lparr>mw_name = ''rate-limit'',
      beforeToolCall = Some (\<lambda>toolName params (now, rl).
        (case rateLimit_beforeToolCall now toolName rl of (res, rl') \<Rightarrow> (res, (now, rl')))),
      afterToolCall = None,
      onError = None\<rparr>"

record 'w mcp_server =
  pluginManager :: plugin_manager
  middleware :: "'w mcp_middleware list"

text \<open>
  The three loops over \<^verbatim>\<open>this.middleware\<close>. Each returns at the first hook that
  throws; each call of a hook is recorded.
\<close>

fun run_beforeToolCall ::
    "'w mcp_middleware list \<Rightarrow> string \<Rightarrow> js_value \<Rightarrow> event list \<times> 'w
      \<Rightarrow> (thrown + unit) \<times> event list \<times> 'w" where
  "run_beforeToolCall [] name args (tr, w) = (Inr (), tr, w)"
| "run_beforeToolCall (m # ms) name args (tr, w) =
     (case beforeToolCall m of
        None \<Rightarrow> run_beforeToolCall ms name args (tr, w)
      | Some hook \<Rightarrow>
          (case hook name args w of
             (Inl e, w') \<Rightarrow> (Inl e, tr @ [BeforeToolCall (mw_name m) name], w')
           | (Inr u, w') \<Rightarrow>
               run_beforeToolCall ms name args (tr @ [BeforeToolCall (mw_name m) name], w')))"

fun run_afterToolCall ::
    "'w mcp_middleware list \<Rightarrow> string \<Rightarrow> js_value \<Rightarrow> js_value \<Rightarrow> event list \<times> 'w
      \<Rightarrow> (thrown + unit) \<times> event list \<times> 'w" where
  "run_afterToolCall [] name args result (tr, w) = (Inr (), tr, w)"
| "run_afterToolCall (m # ms) name args result (tr, w) =
     (case afterToolCall m of
        None \<Rightarrow> run_afterToolCall ms name args result (tr, w)
      | Some hook \<Rightarrow>
          (case hook name args result w of
             (Inl e, w') \<Rightarrow> (Inl e, tr @ [AfterToolCall (mw_name m) name], w')
           | (Inr u, w') \<Rightarrow>
               run_afterToolCall ms name args result (tr @ [AfterToolCall (mw_name m) name], w')))"

fun run_onError ::
    "'w mcp_middleware list \<Rightarrow> thrown \<Rightarrow> string \<Rightarrow> event list \<times> 'w
      \<Rightarrow> (thrown + unit) \<times> event list \<times> 'w" where
  "run_onError [] error name (tr, w) = (Inr (), tr, w)"
| "run_onError (m # ms) error name (tr, w) =
     (case onError m of
        None \<Rightarrow> run_onError ms error name (tr, w)
      | Some hook \<Rightarrow>
          (case hook error ''tool'' name w of
             (Inl e, w') \<Rightarrow> (Inl e, tr @ [OnError (mw_name m) name], w')
           | (Inr u, w') \<Rightarrow> run_onError ms error name (tr @ [OnError (mw_name m) name], w')))"

text \<open>
  The text of a tool response: a string result is passed through, any other result is
  rendered by \<^verbatim>\<open>JSON.stringify\<close>, which is kept symbolic.
\<close>

datatype content_text = Text string | Stringified js_value

fun render :: "js_value \<Rightarrow> content_text" where
  "render (JString s) = Text s"
| "render v = Stringified v"

text \<open>Decimal notation of a number, as a template literal renders it.\<close>

fun show_nat :: "nat \<Rightarrow> string" where
  "show_nat n =
     (if n < 10 then [''0123456789'' ! n]
      else show_nat (n div 10) @ [''0123456789'' ! (n mod 10)])"

declare show_nat.simps [simp del]

definition show_int :: "int \<Rightarrow> string" where
  "show_int i = (if i < 0 then ''-'' @ show_nat (nat (- i)) else show_nat (nat i))"

text \<open>
  \<^verbatim>\<open>error instanceof Error ? error.message : 'Unknown error'\<close>. The class
  \<^verbatim>\<open>McpError\<close> belongs to the protocol library, whose constructor builds the
  message \<^verbatim>\<open>MCP error <code>: <message>\<close> from its arguments.
\<close>

fun error_message :: "thrown \<Rightarrow> string" where
  "error_message (Error msg) = msg"
| "error_message (McpError code msg) = ''MCP error '' @ show_int code @ '': '' @ msg"
| "error_message (NonError v) = ''Unknown error''"

text \<open>
  The handler registered for \<^verbatim>\<open>CallToolRequestSchema\<close>, which serves the stdio
  transport: first the body of its \<^verbatim>\<open>try\<close>, then the whole handler with its
  \<^verbatim>\<open>catch\<close>. A result is the outcome, the events in order and the hooks' state.
\<close>

definition callTool_try ::
    "'w mcp_middleware list \<Rightarrow> tool \<Rightarrow> string \<Rightarrow> js_value \<Rightarrow> 'w
      \<Rightarrow> (thrown + content_text) \<times> event list \<times> 'w" where
  "callTool_try mws t name args w =
     (case run_beforeToolCall mws name args ([], w) of
        (Inl e, tr, w') \<Rightarrow> (Inl e, tr, w')
      | (Inr u, tr, w') \<Rightarrow>
          (case handler t args of
             Inl e \<Rightarrow> (Inl e, tr @ [HandlerCalled name], w')
           | Inr result \<Rightarrow>
               (case run_afterToolCall mws name args result (tr @ [HandlerCalled name], w') of
                  (Inl e, tr', w'') \<Rightarrow> (Inl e, tr', w'')
                | (Inr u', tr', w'') \<Rightarrow> (Inr (render result), tr', w''))))"

definition callToolRequestHandler ::
    "'w mcp_server \<Rightarrow> string \<Rightarrow> js_value \<Rightarrow> 'w \<Rightarrow> (thrown + content_text) \<times> event list \<times> 'w" where
  "callToolRequestHandler srv name args w =
     (case getTool (pluginManager srv) name of
        None \<Rightarrow> (Inl (McpError MethodNotFound (''Tool not found: '' @ name)), [], w)
      | Some t \<Rightarrow>
          (case callTool_try (middleware srv) t name args w of
             (Inr c, tr, w') \<Rightarrow> (Inr c, tr, w')
           | (Inl error, tr, w') \<Rightarrow>
               (case run_onError (middleware srv) error name
                       (tr @ [Logged LError (''Tool execution failed: '' @ name)], w') of
                  (Inl e, tr', w'') \<Rightarrow> (Inl e, tr', w'')
                | (Inr u, tr', w'') \<Rightarrow>
                    (Inl (McpError InternalError
                            (''Tool execution failed: '' @ error_message error)),
                     tr', w''))))"

text \<open>
  \<^verbatim>\<open>handleToolCall\<close>, which serves the HTTP and WebSocket transports, and the
  \<^verbatim>\<open>tools/call\<close> case of the transports' request handler, which turns its outcome
  into a JSON-RPC envelope. The handler also sets the request context before the
  dispatch and clears it afterwards; no function modelled here reads it.
\<close>

definition handleToolCall ::
    "'w mcp_server \<Rightarrow> string \<Rightarrow> js_value \<Rightarrow> 'w \<Rightarrow> (thrown + content_text) \<times> event list \<times> 'w" where
  "handleToolCall srv name args w =
     (case getTool (pluginManager srv) name of
        None \<Rightarrow> (Inl (McpError MethodNotFound (''Tool not found: '' @ name)), [], w)
      | Some t \<Rightarrow>
          (case handler t args of
             Inl e \<Rightarrow> (Inl e, [HandlerCalled name], w)
           | Inr result \<Rightarrow> (Inr (render result), [HandlerCalled name], w)))"

datatype envelope = ResultEnvelope content_text | ErrorEnvelope int string

definition transport_toolsCall ::
    "'w mcp_server \<Rightarrow> string \<Rightarrow> js_value \<Rightarrow> 'w \<Rightarrow> envelope \<times> event list \<times> 'w" where
  "transport_toolsCall srv name args w =
     (case handleToolCall srv name args w of
        (Inr c, tr, w') \<Rightarrow> (ResultEnvelope c, tr, w')
      | (Inl e, tr, w') \<Rightarrow>
          (ErrorEnvelope (- 32603) (error_message e), tr @ [Logged LError ''Request failed:''], w'))"

text \<open>
  A server over the host with the plugin \<^verbatim>\<open>demo\<close>, configured with the logging and
  the validation middleware; and one configured with the rate limiter.
\<close>

definition demo_server :: "unit mcp_server" where
  "demo_server =
     \<lparr>pluginManager = host_demo, middleware = [LoggingMiddleware, ValidationMiddleware]\<rparr>"

definition limited_server :: "(int \<times> rate_limit) mcp_server" where
  "limited_server = \<lparr>pluginManager = host_demo, middleware = [RateLimitMiddleware]\<rparr>"

text \<open>The names of the middlewares that have a given hook, in registration order.\<close>

definition hooked :: "('w mcp_middleware \<Rightarrow> 'h option) \<Rightarrow> 'w mcp_middleware list \<Rightarrow> string list" where
  "hooked hook mws = map mw_name (filter (\<lambda>m. hook m \<noteq> None) mws)"

section \<open>Orchestration: sessions and workflows\<close>

text \<open>
  The records of the orchestration layer. Dates are milliseconds. The identifier
  \<^verbatim>\<open>msg_n\<close> of a conversation entry and \<^verbatim>\<open>checkpoint_n\<close> of a checkpoint is
  represented by its number \<open>n\<close>. An optional field has an option type.
\<close>

datatype role = User | Assistant | System

record conversation_entry =
  entry_id :: int
  entry_timestamp :: int
  entry_role :: role
  content :: string

record workflow_checkpoint =
  checkpoint_id :: int
  checkpoint_timestamp :: int
  checkpoint_step :: string
  checkpoint_description :: "string option"
  checkpoint_data :: js_value

record workflow_history_entry =
  history_timestamp :: int
  action :: string
  details :: js_value

record workflow_metadata =
  startedAt :: int
  lastModified :: int
  completionPercentage :: int
  isDraft :: bool

record workflow_state =
  ws_workflowId :: string
  currentStep :: string
  ws_data :: js_value
  ws_metadata :: workflow_metadata
  ws_checkpoints :: "workflow_checkpoint list"

record workflow_context =
  wc_workflowId :: string
  wc_state :: workflow_state
  hydratedData :: js_value
  wc_tools :: "string list"
  wc_history :: "workflow_history_entry list"
  wc_checkpoints :: "workflow_checkpoint list"

record global_context =
  gc_userId :: string
  gc_userName :: string
  preferences :: "js_value option"
  activeProjects :: "string list option"
  recentWorkflows :: "string list option"

record user_session =
  sessionId :: string
  userId :: string
  userName :: string
  activeWorkflow :: "string option"
  currentContext :: string
  globalContext :: global_context
  workflowContext :: "workflow_context option"
  conversationHistory :: "conversation_entry list"
  createdAt :: int
  updatedAt :: int

record workflow_definition =
  wf_id :: string
  wf_name :: string
  wf_description :: string
  triggers :: "string list"
  capabilities :: "string list"
  requiredContext :: "string list"
  category :: "string option"

text \<open>An optional string is truthy when it is defined and not empty.\<close>

fun truthy_string :: "string option \<Rightarrow> bool" where
  "truthy_string None = False"
| "truthy_string (Some s) = (s \<noteq> [])"

subsection \<open>Workflow registry\<close>

type_synonym workflow_registry = "(string \<times> workflow_definition) list"

definition registry_register :: "workflow_definition \<Rightarrow> workflow_registry \<Rightarrow> workflow_registry" where
  "registry_register definition reg = AList.update (wf_id definition) definition reg"

definition registry_get :: "workflow_registry \<Rightarrow> string \<Rightarrow> workflow_definition option" where
  "registry_get reg i = map_of reg i"

definition registry_getAll :: "workflow_registry \<Rightarrow> workflow_definition list" where
  "registry_getAll reg = map snd reg"

subsection \<open>Context manager\<close>

text \<open>A context loader's \<^verbatim>\<open>loadContext(workflowId, sessionId)\<close> returns or throws.\<close>

type_synonym context_loader = "string \<Rightarrow> string \<Rightarrow> thrown + workflow_context"

record context_manager =
  cm_registry :: workflow_registry
  loaders :: "string \<rightharpoonup> context_loader"

text \<open>
  The update of the most-recently-used list: \<^verbatim>\<open>indexOf\<close> and \<^verbatim>\<open>splice(index, 1)\<close>
  drop the first occurrence of the target, \<^verbatim>\<open>unshift\<close> puts it in front,
  \<^verbatim>\<open>splice(10)\<close> keeps the first ten.
\<close>

definition update_recent :: "string \<Rightarrow> string list \<Rightarrow> string list" where
  "update_recent targetWorkflow recent =
     (let recent1 = (if targetWorkflow \<in> set recent then remove1 targetWorkflow recent else recent);
          recent2 = targetWorkflow # recent1
      in if length recent2 > 10 then take 10 recent2 else recent2)"

definition basic_context :: "int \<Rightarrow> string \<Rightarrow> workflow_definition \<Rightarrow> js_value \<Rightarrow> workflow_context" where
  "basic_context now targetWorkflow workflow initData =
     \<lparr>wc_workflowId = targetWorkflow,
      wc_state =
        \<lparr>ws_workflowId = targetWorkflow,
         currentStep = ''initial'',
         ws_data = (if falsy initData then JObject [] else initData),
         ws_metadata =
           \<lparr>startedAt = now, lastModified = now, completionPercentage = 0, isDraft = True\<rparr>,
         ws_checkpoints = []\<rparr>,
      hydratedData = JObject [],
      wc_tools = capabilities workflow,
      wc_history = [],
      wc_checkpoints = []\<rparr>"

text \<open>
  \<^verbatim>\<open>ContextManager.switchContext\<close>. The session is mutated in place in the source;
  here the updated session is returned. A throw happens before any field is written.
\<close>

definition switchContext ::
    "context_manager \<Rightarrow> int \<Rightarrow> user_session \<Rightarrow> string option \<Rightarrow> js_value
      \<Rightarrow> thrown + user_session" where
  "switchContext cm now session targetWorkflow initData =
     (if \<not> truthy_string targetWorkflow
      then Inr (session\<lparr>activeWorkflow := None, workflowContext := None,
                         currentContext := ''general''\<rparr>)
      else
        (let target = the targetWorkflow in
         case registry_get (cm_registry cm) target of
           None \<Rightarrow> Inl (Error (''Workflow not found: '' @ target))
         | Some workflow \<Rightarrow>
             (case (case loaders cm target of
                      Some loader \<Rightarrow> loader target (sessionId session)
                    | None \<Rightarrow> Inr (basic_context now target workflow initData)) of
                Inl e \<Rightarrow> Inl e
              | Inr wc \<Rightarrow>
                  Inr (session
                        \<lparr>workflowContext := Some wc,
                         activeWorkflow := Some target,
                         currentContext := target,
                         globalContext := (globalContext session)
                           \<lparr>recentWorkflows :=
                              Some (update_recent target
                                      (case recentWorkflows (globalContext session) of
                                         None \<Rightarrow> []
                                       | Some recent \<Rightarrow> recent))\<rparr>\<rparr>))))"

subsection \<open>Session manager over the in-memory store\<close>

record session_manager =
  store :: "string \<rightharpoonup> user_session"
  sessionTimeout :: int

definition new_SessionManager :: session_manager where
  "new_SessionManager = \<lparr>store = Map.empty, sessionTimeout = 30 * 60 * 1000\<rparr>"

text \<open>
  \<^verbatim>\<open>createSession\<close>; \<open>freshId\<close> is what \<^verbatim>\<open>generateSessionId\<close> returns, which
  depends on the clock and on a random number.
\<close>

definition createSession ::
    "int \<Rightarrow> string \<Rightarrow> string \<Rightarrow> string \<Rightarrow> string option \<Rightarrow> session_manager
      \<Rightarrow> user_session \<times> session_manager" where
  "createSession now freshId uid uname sid sm =
     (let session =
        \<lparr>sessionId = (if truthy_string sid then the sid else freshId),
         userId = uid,
         userName = uname,
         activeWorkflow = None,
         currentContext = ''general'',
         globalContext =
           \<lparr>gc_userId = uid, gc_userName = uname, preferences = Some (JObject []),
            activeProjects = Some [], recentWorkflows = Some []\<rparr>,
         workflowContext = None,
         conversationHistory = [],
         createdAt = now,
         updatedAt = now\<rparr>
      in (session, sm\<lparr>store := (store sm)(sessionId session \<mapsto> session)\<rparr>))"

definition getSession :: "session_manager \<Rightarrow> string \<Rightarrow> user_session option" where
  "getSession sm sid = store sm sid"

definition getOrCreateSession ::
    "int \<Rightarrow> string \<Rightarrow> string option \<Rightarrow> string \<Rightarrow> string \<Rightarrow> session_manager
      \<Rightarrow> user_session \<times> session_manager" where
  "getOrCreateSession now freshId sid uid uname sm =
     (if truthy_string sid
      then (case getSession sm (the sid) of
              Some existing \<Rightarrow> (existing, sm)
            | None \<Rightarrow> createSession now freshId uid uname sid sm)
      else createSession now freshId uid uname sid sm)"

definition updateSession ::
    "int \<Rightarrow> user_session \<Rightarrow> session_manager \<Rightarrow> user_session \<times> session_manager" where
  "updateSession now session sm =
     (let session' = session\<lparr>updatedAt := now\<rparr>
      in (session', sm\<lparr>store := (store sm)(sessionId session' \<mapsto> session')\<rparr>))"

definition addMessage ::
    "int \<Rightarrow> string \<Rightarrow> conversation_entry \<Rightarrow> session_manager \<Rightarrow> session_manager" where
  "addMessage now sid message sm =
     (case getSession sm sid of
        None \<Rightarrow> sm
      | Some session \<Rightarrow>
          snd (updateSession now
                 (session\<lparr>conversationHistory := conversationHistory session @ [message]\<rparr>)
                 sm))"

subsection \<open>Rule-based intent detector\<close>

record intent =
  intent_name :: string
  intent_confidence :: rat
  parameters :: "js_value option"

record extracted_entity =
  entity_type :: string
  entity_value :: string
  entity_confidence :: rat

record intent_analysis =
  confidence :: rat
  intents :: "intent list"
  entities :: "extracted_entity list"
  shouldSwitchWorkflow :: bool
  targetWorkflow :: "string option"
  extractedData :: "js_value option"

text \<open>
  \<^verbatim>\<open>extractEntities\<close> and \<^verbatim>\<open>extractWorkflowData\<close> match regular expressions and
  read the clock. They are parameters of the detector here. The confidence is an exact
  rational, so the test \<^verbatim>\<open>confidence > 0.7\<close> of the switch branch is exact too; in
  the source the product \<^verbatim>\<open>ratio * 0.8\<close> is rounded to a double, which can put a
  product equal to 0.7 just above it.
\<close>

record extractors =
  extractEntities :: "string \<Rightarrow> extracted_entity list"
  extractWorkflowData :: "string \<Rightarrow> workflow_definition \<Rightarrow> js_value"

definition exitSignals :: "string list" where
  "exitSignals = [''done'', ''finished'', ''complete'', ''exit'', ''stop'', ''end session'', ''quit'']"

definition analyzeMessage ::
    "extractors \<Rightarrow> workflow_registry \<Rightarrow> string \<Rightarrow> user_session \<Rightarrow> intent_analysis" where
  "analyzeMessage ex reg message session =
     (let lowerMessage = toLowerCase message;
          shouldExit = list_ex (\<lambda>signal. str_includes lowerMessage signal) exitSignals
      in if shouldExit \<and> truthy_string (activeWorkflow session)
         then \<lparr>confidence = 9 / 10,
               intents = [\<lparr>intent_name = ''exit_workflow'', intent_confidence = 9 / 10,
                           parameters = None\<rparr>],
               entities = [],
               shouldSwitchWorkflow = True,
               targetWorkflow = None,
               extractedData = Some (JObject [(''reason'', JString ''user_requested'')])\<rparr>
         else
           (case filter (\<lambda>workflow. list_ex (\<lambda>trigger. str_includes lowerMessage (toLowerCase trigger))
                                        (triggers workflow))
                        (registry_getAll reg) of
              bestMatch # others \<Rightarrow>
                (let c = calculateConfidence message (triggers bestMatch)
                 in \<lparr>confidence = c,
                     intents = [\<lparr>intent_name = ''switch_workflow'', intent_confidence = c,
                                 parameters =
                                   Some (JObject [(''targetWorkflow'', JString (wf_id bestMatch))])\<rparr>],
                     entities = extractEntities ex message,
                     shouldSwitchWorkflow = (c > 7 / 10),
                     targetWorkflow = Some (wf_id bestMatch),
                     extractedData = Some (extractWorkflowData ex message bestMatch)\<rparr>)
            | [] \<Rightarrow>
                \<lparr>confidence = 1 / 10,
                 intents = [\<lparr>intent_name = ''continue_current'', intent_confidence = 1 / 10,
                             parameters = None\<rparr>],
                 entities = extractEntities ex message,
                 shouldSwitchWorkflow = False,
                 targetWorkflow = None,
                 extractedData = None\<rparr>))"

subsection \<open>Orchestrator\<close>

text \<open>
  The orchestrator with the in-memory store. Its context manager works on the same
  registry object. The intent detector is the rule-based one unless the configuration
  supplies another.
\<close>

datatype intent_detector =
    RuleBased extractors
  | Custom "string \<Rightarrow> user_session \<Rightarrow> thrown + intent_analysis"

record orchestrator =
  sessionManager :: session_manager
  workflowRegistry :: workflow_registry
  contextLoaders :: "string \<rightharpoonup> context_loader"
  intentDetector :: intent_detector

definition contextManager :: "orchestrator \<Rightarrow> context_manager" where
  "contextManager orch = \<lparr>cm_registry = workflowRegistry orch, loaders = contextLoaders orch\<rparr>"

definition new_Orchestrator :: "extractors \<Rightarrow> orchestrator" where
  "new_Orchestrator ex =
     \<lparr>sessionManager = new_SessionManager, workflowRegistry = [], contextLoaders = Map.empty,
      intentDetector = RuleBased ex\<rparr>"

definition registerWorkflow :: "workflow_definition \<Rightarrow> orchestrator \<Rightarrow> orchestrator" where
  "registerWorkflow definition orch =
     orch\<lparr>workflowRegistry := registry_register definition (workflowRegistry orch)\<rparr>"

definition detect :: "orchestrator \<Rightarrow> string \<Rightarrow> user_session \<Rightarrow> thrown + intent_analysis" where
  "detect orch message session =
     (case intentDetector orch of
        RuleBased ex \<Rightarrow> Inr (analyzeMessage ex (workflowRegistry orch) message session)
      | Custom analyze \<Rightarrow> analyze message session)"

record process_result =
  result_session :: user_session
  result_intent :: intent_analysis
  workflowChanged :: bool

text \<open>
  \<^verbatim>\<open>Orchestrator.processMessage\<close>. One reading of the clock, \<open>now\<close>, stands for the
  dates taken during the call. The store hands out the stored object itself, and
  \<^verbatim>\<open>addMessage\<close> pushes onto the array that object shares with \<^verbatim>\<open>session\<close>, so
  after \<^verbatim>\<open>addMessage\<close> the local \<^verbatim>\<open>session\<close> is the stored session. The result is
  the outcome and the orchestrator afterwards.
\<close>

definition processMessage ::
    "int \<Rightarrow> string \<Rightarrow> string \<Rightarrow> string option \<Rightarrow> string option \<Rightarrow> string option \<Rightarrow> orchestrator
      \<Rightarrow> (thrown + process_result) \<times> orchestrator" where
  "processMessage now freshId message sid uid uname orch =
     (let uid' = (case uid of None \<Rightarrow> ''default-user'' | Some u \<Rightarrow> u);
          uname' = (case uname of None \<Rightarrow> ''User'' | Some u \<Rightarrow> u);
          (session0, sm1) = getOrCreateSession now freshId sid uid' uname' (sessionManager orch);
          sm2 = addMessage now (sessionId session0)
                  \<lparr>entry_id = now, entry_timestamp = now, entry_role = User, content = message\<rparr>
                  sm1;
          session1 = (case getSession sm2 (sessionId session0) of
                        Some s \<Rightarrow> s
                      | None \<Rightarrow> session0)
      in case detect orch message session1 of
           Inl e \<Rightarrow> (Inl e, orch\<lparr>sessionManager := sm2\<rparr>)
         | Inr analysis \<Rightarrow>
             (case (if shouldSwitchWorkflow analysis \<and> truthy_string (targetWorkflow analysis)
                    then (case switchContext (contextManager orch) now session1
                                 (targetWorkflow analysis)
                                 (case extractedData analysis of
                                    None \<Rightarrow> JUndefined
                                  | Some d \<Rightarrow> d) of
                            Inl e \<Rightarrow> Inl e
                          | Inr session2 \<Rightarrow> Inr (session2, True))
                    else Inr (session1, False)) of
                Inl e \<Rightarrow> (Inl e, orch\<lparr>sessionManager := sm2\<rparr>)
              | Inr (session2, changed) \<Rightarrow>
                  (case updateSession now session2 sm2 of
                     (session3, sm3) \<Rightarrow>
                       (Inr \<lparr>result_session = session3, result_intent = analysis,
                             workflowChanged = changed\<rparr>,
                        orch\<lparr>sessionManager := sm3\<rparr>))))"

text \<open>\<^verbatim>\<open>Orchestrator.switchWorkflow\<close>.\<close>

definition switchWorkflow ::
    "int \<Rightarrow> string \<Rightarrow> string option \<Rightarrow> js_value \<Rightarrow> orchestrator
      \<Rightarrow> (thrown + user_session) \<times> orchestrator" where
  "switchWorkflow now sid target initData orch =
     (case getSession (sessionManager orch) sid of
        None \<Rightarrow> (Inl (Error (''Session not found: '' @ sid)), orch)
      | Some session \<Rightarrow>
          (case switchContext (contextManager orch) now session target initData of
             Inl e \<Rightarrow> (Inl e, orch)
           | Inr session' \<Rightarrow>
               (case updateSession now session' (sessionManager orch) of
                  (session'', sm') \<Rightarrow> (Inr session'', orch\<lparr>sessionManager := sm'\<rparr>))))"

subsection \<open>Sample workflow and sessions\<close>

text \<open>
  The workflow \<^verbatim>\<open>character-creation\<close> of the specification's scenarios; an
  orchestrator on which it is registered and on which the session \<^verbatim>\<open>s1\<close> of user
  \<^verbatim>\<open>u\<close> has been created and switched into that workflow; a workflow whose id is
  the empty string.
\<close>

definition no_extractors :: extractors where
  "no_extractors =
     \<lparr>extractEntities = (\<lambda>message. []), extractWorkflowData = (\<lambda>message workflow. JObject [])\<rparr>"

definition character_creation :: workflow_definition where
  "character_creation =
     \<lparr>wf_id = ''character-creation'', wf_name = ''Character creation'',
      wf_description = ''Create a character'', triggers = [''create character''],
      capabilities = [], requiredContext = [], category = None\<rparr>"

definition unnamed_workflow :: workflow_definition where
  "unnamed_workflow =
     \<lparr>wf_id = '''', wf_name = ''Unnamed'', wf_description = ''A workflow with an empty id'',
      triggers = [], capabilities = [], requiredContext = [], category = None\<rparr>"

definition sample_session :: user_session where
  "sample_session = fst (createSession 1000 ''session_1000_abcdefghi'' ''u'' ''U'' (Some ''s1'')
                           new_SessionManager)"

text \<open>The sample session with a given list of recent workflows.\<close>

definition session_with_recent :: "string list \<Rightarrow> user_session" where
  "session_with_recent recent =
     sample_session\<lparr>globalContext := (globalContext sample_session)
       \<lparr>recentWorkflows := Some recent\<rparr>\<rparr>"

definition orch_created :: orchestrator where
  "orch_created =
     (registerWorkflow character_creation (new_Orchestrator no_extractors))
       \<lparr>sessionManager :=
          snd (createSession 1000 ''session_1000_abcdefghi'' ''u'' ''U'' (Some ''s1'')
                 new_SessionManager)\<rparr>"

definition orch_in_workflow :: orchestrator where
  "orch_in_workflow =
     snd (switchWorkflow 2000 ''s1'' (Some ''character-creation'') JUndefined orch_created)"

section \<open>Properties of the string functions\<close>

lemma length_toLowerCase: "length (toLowerCase s) = length s"
  by (simp add: toLowerCase_def)

lemma startsWith_length: "startsWith t p \<Longrightarrow> length p \<le> length t"
  by (induction t p rule: startsWith.induct) simp_all

lemma str_includes_length: "str_includes t p \<Longrightarrow> length p \<le> length t"
proof (induction t)
  case Nil
  then show ?case by simp
next
  case (Cons c cs)
  from Cons.prems have "startsWith (c # cs) p \<or> str_includes cs p" by simp
  then show ?case
  proof
    assume "startsWith (c # cs) p"
    then show ?thesis by (rule startsWith_length)
  next
    assume "str_includes cs p"
    then have "length p \<le> length cs" by (rule Cons.IH)
    then show ?thesis by simp
  qed
qed

section \<open>Properties of the confidence score\<close>

text \<open>The candidate value one trigger contributes to the running maximum.\<close>

definition trigger_score :: "string \<Rightarrow> string \<Rightarrow> rat" where
  "trigger_score lm lt =
     (if lm = lt then 1
      else if str_includes lm lt then of_nat (length lt) / of_nat (length lm) * (8 / 10)
      else if fuzzyMatch lm lt then 6 / 10
      else 0)"

lemma confidence_loop_step:
  "0 \<le> mx \<Longrightarrow>
   confidence_loop lm (t # ts) mx = confidence_loop lm ts (max mx (trigger_score lm (toLowerCase t)))"
proof -
  assume "0 \<le> mx"
  then have keep: "max mx 0 = mx" by simp
  show ?thesis
    by (simp add: trigger_score_def Let_def keep)
qed

lemma ratio_le_one:
  assumes "str_includes lm lt"
  shows "(of_nat (length lt) / of_nat (length lm) :: rat) \<le> 1"
proof (cases "length lm = 0")
  case True
  then show ?thesis by simp
next
  case False
  from assms have "length lt \<le> length lm" by (rule str_includes_length)
  with False show ?thesis by (simp add: divide_le_eq_1)
qed

lemma trigger_score_bounds: "0 \<le> trigger_score lm lt \<and> trigger_score lm lt \<le> 1"
proof -
  have "str_includes lm lt \<Longrightarrow> (of_nat (length lt) / of_nat (length lm) :: rat) * (8 / 10) \<le> 1"
  proof -
    assume "str_includes lm lt"
    then have "(of_nat (length lt) / of_nat (length lm) :: rat) \<le> 1" by (rule ratio_le_one)
    then show ?thesis by simp
  qed
  then show ?thesis by (simp add: trigger_score_def)
qed

lemma confidence_loop_bounds:
  "0 \<le> mx \<Longrightarrow> mx \<le> 1 \<Longrightarrow> mx \<le> confidence_loop lm trigs mx \<and> confidence_loop lm trigs mx \<le> 1"
proof (induction trigs arbitrary: mx)
  case Nil
  then show ?case by simp
next
  case (Cons t ts)
  let ?m = "max mx (trigger_score lm (toLowerCase t))"
  have m: "0 \<le> ?m" "?m \<le> 1" "mx \<le> ?m"
    using Cons.prems trigger_score_bounds [of lm "toLowerCase t"] by auto
  have "?m \<le> confidence_loop lm ts ?m \<and> confidence_loop lm ts ?m \<le> 1"
    using m(1) m(2) by (rule Cons.IH)
  with m(3) have "mx \<le> confidence_loop lm ts ?m \<and> confidence_loop lm ts ?m \<le> 1"
    by auto
  then show ?case
    by (simp only: confidence_loop_step [OF Cons.prems(1)])
qed

lemma confidence_loop_one: "confidence_loop lm trigs 1 = 1"
  using confidence_loop_bounds [of 1 lm trigs] by simp

lemma confidence_loop_exact:
  assumes "trigger \<in> set trigs" and "toLowerCase trigger = lm" and "0 \<le> mx" and "mx \<le> 1"
  shows "confidence_loop lm trigs mx = 1"
  using assms
proof (induction trigs arbitrary: mx)
  case Nil
  then show ?case by simp
next
  case (Cons t ts)
  let ?m = "max mx (trigger_score lm (toLowerCase t))"
  have m: "0 \<le> ?m" "?m \<le> 1"
    using Cons.prems trigger_score_bounds [of lm "toLowerCase t"] by auto
  show ?case
  proof (cases "toLowerCase t = lm")
    case True
    then have "trigger_score lm (toLowerCase t) = 1" by (simp add: trigger_score_def)
    with Cons.prems(4) have "?m = 1" by (simp add: max_def)
    then show ?thesis
      by (simp only: confidence_loop_step [OF Cons.prems(3)] confidence_loop_one)
  next
    case False
    with Cons.prems(1,2) have mem: "trigger \<in> set ts" by auto
    have "confidence_loop lm ts ?m = 1"
      using mem Cons.prems(2) m by (rule Cons.IH)
    then show ?thesis
      by (simp only: confidence_loop_step [OF Cons.prems(3)])
  qed
qed

lemma toLowerChar_space:
  "(toLowerChar c = CHR '' '') = (c = CHR '' '')" "(CHR '' '' = toLowerChar c) = (CHR '' '' = c)"
  by (auto simp: toLowerChar_def split: if_splits)

lemma toLowerCase_space: "(CHR '' '' \<in> set (toLowerCase s)) = (CHR '' '' \<in> set s)"
  by (induction s) (simp_all add: toLowerCase_def toLowerChar_space)

text \<open>
  C8 (as the code has it). For a message and triggers of ASCII characters: a trigger
  longer than the message scores 0.6 when each of its space-separated words occurs in
  the message and 0 otherwise; in particular it scores 0 when it has no space. A
  trigger equal to the message up to letter case makes the score of the whole trigger
  list 1.
\<close>

theorem calculateConfidence_long_or_exact_trigger:
  "(ascii message \<and> ascii trigger \<and> length message < length trigger \<longrightarrow>
      calculateConfidence message [trigger] =
        (if fuzzyMatch (toLowerCase message) (toLowerCase trigger) then 6 / 10 else 0))
   \<and> (ascii message \<and> ascii trigger \<and> length message < length trigger
        \<and> CHR '' '' \<notin> set trigger \<longrightarrow>
      calculateConfidence message [trigger] = 0)
   \<and> (ascii message \<and> list_all ascii trigs \<and> trigger \<in> set trigs
        \<and> toLowerCase trigger = toLowerCase message \<longrightarrow>
      calculateConfidence message trigs = 1)"
proof (intro conjI impI)
  assume a: "ascii message \<and> ascii trigger \<and> length message < length trigger"
  have ne: "toLowerCase message \<noteq> toLowerCase trigger"
  proof
    assume "toLowerCase message = toLowerCase trigger"
    then have "length (toLowerCase message) = length (toLowerCase trigger)" by simp
    with a show False by (simp add: length_toLowerCase)
  qed
  have ni: "\<not> str_includes (toLowerCase message) (toLowerCase trigger)"
  proof
    assume "str_includes (toLowerCase message) (toLowerCase trigger)"
    then have "length (toLowerCase trigger) \<le> length (toLowerCase message)"
      by (rule str_includes_length)
    with a show False by (simp add: length_toLowerCase)
  qed
  from ne ni show "calculateConfidence message [trigger] =
      (if fuzzyMatch (toLowerCase message) (toLowerCase trigger) then 6 / 10 else 0)"
    by (simp add: calculateConfidence_def Let_def)
next
  assume a: "ascii message \<and> ascii trigger \<and> length message < length trigger
      \<and> CHR '' '' \<notin> set trigger"
  have ne: "toLowerCase message \<noteq> toLowerCase trigger"
  proof
    assume "toLowerCase message = toLowerCase trigger"
    then have "length (toLowerCase message) = length (toLowerCase trigger)" by simp
    with a show False by (simp add: length_toLowerCase)
  qed
  have ni: "\<not> str_includes (toLowerCase message) (toLowerCase trigger)"
  proof
    assume "str_includes (toLowerCase message) (toLowerCase trigger)"
    then have "length (toLowerCase trigger) \<le> length (toLowerCase message)"
      by (rule str_includes_length)
    with a show False by (simp add: length_toLowerCase)
  qed
  have one_word: "\<And>s. CHR '' '' \<notin> set s \<Longrightarrow> split_space s = [s]"
  proof -
    fix s :: string
    show "CHR '' '' \<notin> set s \<Longrightarrow> split_space s = [s]"
      by (induction s) auto
  qed
  from a have "CHR '' '' \<notin> set (toLowerCase trigger)" by (simp add: toLowerCase_space)
  then have "split_space (toLowerCase trigger) = [toLowerCase trigger]"
    by (rule one_word)
  with ni have "\<not> fuzzyMatch (toLowerCase message) (toLowerCase trigger)"
    by (simp add: fuzzyMatch_def)
  with ne ni show "calculateConfidence message [trigger] = 0"
    by (simp add: calculateConfidence_def Let_def)
next
  assume "ascii message \<and> list_all ascii trigs \<and> trigger \<in> set trigs
      \<and> toLowerCase trigger = toLowerCase message"
  then show "calculateConfidence message trigs = 1"
    unfolding calculateConfidence_def
    by (intro confidence_loop_exact [of trigger]) simp_all
qed

theorem calculateConfidence_long_or_exact_trigger_witness:
  "ascii ''helpme'' \<and> ascii ''help me'' \<and> length ''helpme'' < length ''help me''
   \<and> calculateConfidence ''helpme'' [''help me''] = 6 / 10
   \<and> ascii ''hi'' \<and> ascii ''Weather'' \<and> length ''hi'' < length ''Weather''
   \<and> CHR '' '' \<notin> set ''Weather''
   \<and> calculateConfidence ''hi'' [''Weather''] = 0
   \<and> ascii ''Create Character'' \<and> list_all ascii [''new hero'', ''create character'']
   \<and> ''create character'' \<in> set [''new hero'', ''create character'']
   \<and> calculateConfidence ''Create Character'' [''new hero'', ''create character''] = 1"
proof -
  have a1: "ascii ''helpme'' \<and> ascii ''help me'' \<and> length ''helpme'' < length ''help me''"
    by (simp add: ascii_def)
  have f1: "fuzzyMatch (toLowerCase ''helpme'') (toLowerCase ''help me'')"
    by (simp add: fuzzyMatch_def toLowerCase_def toLowerChar_def)
  have a2: "ascii ''hi'' \<and> ascii ''Weather'' \<and> length ''hi'' < length ''Weather''
      \<and> CHR '' '' \<notin> set ''Weather''"
    by (simp add: ascii_def)
  have a3: "ascii ''Create Character'' \<and> list_all ascii [''new hero'', ''create character'']
      \<and> ''create character'' \<in> set [''new hero'', ''create character'']"
    by (simp add: ascii_def)
  have e3: "toLowerCase ''create character'' = toLowerCase ''Create Character''"
    by (simp add: toLowerCase_def toLowerChar_def)
  from calculateConfidence_long_or_exact_trigger [of "''helpme''" "''help me''"] a1 f1
  have c1: "calculateConfidence ''helpme'' [''help me''] = 6 / 10" by simp
  from calculateConfidence_long_or_exact_trigger [of "''hi''" "''Weather''"] a2
  have c2: "calculateConfidence ''hi'' [''Weather''] = 0" by blast
  from calculateConfidence_long_or_exact_trigger
         [of "''Create Character''" "''create character''" "[''new hero'', ''create character'']"]
       a3 e3
  have c3: "calculateConfidence ''Create Character'' [''new hero'', ''create character''] = 1"
    by blast
  from a1 c1 a2 c2 a3 c3 show ?thesis by blast
qed

text \<open>
  The trigger \<^verbatim>\<open>help me\<close> is longer than the message \<^verbatim>\<open>helpme\<close>, and its
  confidence is 0.6, not 0: both of its words occur in the message.
\<close>

theorem calculateConfidence_long_trigger_counterexample:
  "length ''helpme'' < length ''help me'' \<and> calculateConfidence ''helpme'' [''help me''] \<noteq> 0"
  by (simp add: calculateConfidence_def fuzzyMatch_def toLowerCase_def toLowerChar_def)

section \<open>Properties of the validation middleware\<close>

text \<open>
  What the check decides for each kind of value: it returns for every object and for
  every array, and throws for \<^verbatim>\<open>undefined\<close>, \<^verbatim>\<open>null\<close>, booleans, numbers and
  strings.
\<close>

lemma validation_beforeToolCall_cases:
  "validation_beforeToolCall toolName params =
     (case params of
        JArray xs \<Rightarrow> Inr ()
      | JObject kvs \<Rightarrow> Inr ()
      | _ \<Rightarrow> Inl (Error (''Invalid parameters for tool '' @ toolName @ '': expected object'')))"
  by (cases params) (simp_all add: validation_beforeToolCall_def)

text \<open>
  C5. The validation middleware's \<^verbatim>\<open>beforeToolCall\<close> is to reject arguments that
  are not a mapping. It rejects \<^verbatim>\<open>null\<close> and a string and accepts an object, but
  it also accepts an array of arguments: \<^verbatim>\<open>typeof\<close> of an array is
  \<^verbatim>\<open>'object'\<close> and an array is truthy.
\<close>

theorem validation_beforeToolCall_accepts_array:
  "validation_beforeToolCall ''demo:echo'' (JArray [JString ''hi'']) = Inr ()
   \<and> validation_beforeToolCall ''demo:echo'' (JObject [(''text'', JString ''hi'')]) = Inr ()
   \<and> validation_beforeToolCall ''demo:echo'' JNull
       = Inl (Error ''Invalid parameters for tool demo:echo: expected object'')
   \<and> validation_beforeToolCall ''demo:echo'' (JString ''hi'')
       = Inl (Error ''Invalid parameters for tool demo:echo: expected object'')"
  by (simp add: validation_beforeToolCall_def)

section \<open>Properties of the rate limiter\<close>

lemma beforeToolCall_config:
  "maxCalls (snd (rateLimit_beforeToolCall now n rl)) = maxCalls rl \<and>
   windowMs (snd (rateLimit_beforeToolCall now n rl)) = windowMs rl"
  by (simp add: rateLimit_beforeToolCall_def Let_def split: option.splits)

lemma beforeToolCall_other:
  "n \<noteq> toolName \<Longrightarrow> callCounts (snd (rateLimit_beforeToolCall now n rl)) toolName = callCounts rl toolName"
  by (simp add: rateLimit_beforeToolCall_def Let_def split: option.splits)

lemma passed_within_open_window:
  "callCounts rl toolName = Some rec \<Longrightarrow>
   \<forall>(t, n) \<in> set calls. n = toolName \<longrightarrow> t \<le> resetTime rec \<Longrightarrow>
   count rec + passed_for rl calls toolName \<le> max (count rec) \<lceil>maxCalls rl\<rceil>"
proof (induction calls arbitrary: rl rec)
  case Nil
  then show ?case by (simp add: passed_for_def)
next
  case (Cons c calls)
  obtain now n where c: "c = (now, n)" by (cases c)
  obtain res rl' where step: "rateLimit_beforeToolCall now n rl = (res, rl')"
    by (cases "rateLimit_beforeToolCall now n rl")
  have cfg: "maxCalls rl' = maxCalls rl"
    using beforeToolCall_config [of now n rl] step by simp
  have rest: "\<forall>(t, n) \<in> set calls. n = toolName \<longrightarrow> t \<le> resetTime rec"
    using Cons.prems(2) by simp
  show ?case
  proof (cases "n = toolName")
    case False
    then have same: "callCounts rl' toolName = Some rec"
      using beforeToolCall_other [of n toolName now rl] step Cons.prems(1) by simp
    have "passed_for rl (c # calls) toolName = passed_for rl' calls toolName"
      using False step c by (cases res) (simp_all add: passed_for_def)
    with Cons.IH [OF same rest] cfg show ?thesis by simp
  next
    case True
    with Cons.prems(2) c have inside: "now \<le> resetTime rec" by simp
    show ?thesis
    proof (cases "of_int (count rec) \<ge> maxCalls rl")
      case True
      with inside \<open>n = toolName\<close> Cons.prems(1) step
      have "res = Inl (Error (''Rate limit exceeded for tool '' @ toolName))" "rl' = rl"
        by (simp_all add: rateLimit_beforeToolCall_def Let_def)
      then have "passed_for rl (c # calls) toolName = passed_for rl calls toolName"
        using step c \<open>n = toolName\<close> by (simp add: passed_for_def)
      with Cons.IH [OF Cons.prems(1) rest] show ?thesis by simp
    next
      case False
      let ?rec' = "rec\<lparr>count := count rec + 1\<rparr>"
      from False have "of_int (count rec) < maxCalls rl" by simp
      then have below: "count rec < \<lceil>maxCalls rl\<rceil>" by (simp add: less_ceiling_iff)
      from False inside \<open>n = toolName\<close> Cons.prems(1) step
      have r: "res = Inr ()" "rl' = rl\<lparr>callCounts := (callCounts rl)(toolName \<mapsto> ?rec')\<rparr>"
        by (simp_all add: rateLimit_beforeToolCall_def Let_def)
      then have same: "callCounts rl' toolName = Some ?rec'" by simp
      have rest': "\<forall>(t, n) \<in> set calls. n = toolName \<longrightarrow> t \<le> resetTime ?rec'"
        using rest by simp
      have "passed_for rl (c # calls) toolName = 1 + passed_for rl' calls toolName"
        using step c \<open>n = toolName\<close> r(1) by (simp add: passed_for_def)
      with Cons.IH [OF same rest'] cfg below show ?thesis by simp
    qed
  qed
qed

text \<open>
  C3 (as the code has it). The limiter counts in fixed windows. A call of a tool that
  finds no record, or arrives after the record's \<^verbatim>\<open>resetTime\<close>, passes and opens a
  window at its time \<open>t0\<close>: it records the count 1 and the reset time
  \<open>t0 + windowMs\<close>. Among it and the calls that follow up to time
  \<open>t0 + windowMs\<close>, at least this one and at most \<open>max 1 \<lceil>maxCalls\<rceil>\<close> calls of
  that tool pass.
\<close>

theorem rateLimit_fixed_window:
  assumes opens: "callCounts rl toolName = None
      \<or> (\<exists>rec. callCounts rl toolName = Some rec \<and> resetTime rec < t0)"
    and inside: "\<forall>(t, n) \<in> set calls. n = toolName \<longrightarrow> t \<le> t0 + windowMs rl"
  shows "rateLimit_beforeToolCall t0 toolName rl =
           (Inr (), rl\<lparr>callCounts := (callCounts rl)
                         (toolName \<mapsto> \<lparr>count = 1, resetTime = t0 + windowMs rl\<rparr>)\<rparr>)
     \<and> (\<exists>later. passed_calls rl ((t0, toolName) # calls) = (t0, toolName) # later)
     \<and> 1 \<le> passed_for rl ((t0, toolName) # calls) toolName
     \<and> passed_for rl ((t0, toolName) # calls) toolName \<le> max 1 \<lceil>maxCalls rl\<rceil>"
proof -
  let ?rec = "\<lparr>count = 1, resetTime = t0 + windowMs rl\<rparr>"
  let ?rl' = "rl\<lparr>callCounts := (callCounts rl)(toolName \<mapsto> ?rec)\<rparr>"
  from opens have step: "rateLimit_beforeToolCall t0 toolName rl = (Inr (), ?rl')"
    by (auto simp: rateLimit_beforeToolCall_def Let_def)
  have look: "callCounts ?rl' toolName = Some ?rec" by simp
  have rest: "\<forall>(t, n) \<in> set calls. n = toolName \<longrightarrow> t \<le> resetTime ?rec"
    using inside by simp
  have bound: "count ?rec + passed_for ?rl' calls toolName \<le> max (count ?rec) \<lceil>maxCalls ?rl'\<rceil>"
    using look rest by (rule passed_within_open_window)
  have head: "passed_calls rl ((t0, toolName) # calls) = (t0, toolName) # passed_calls ?rl' calls"
    using step by simp
  have total: "passed_for rl ((t0, toolName) # calls) toolName
      = 1 + passed_for ?rl' calls toolName"
    using step by (simp add: passed_for_def)
  have nonneg: "0 \<le> passed_for ?rl' calls toolName" by (simp add: passed_for_def)
  from step head total nonneg bound show ?thesis by simp
qed

theorem rateLimit_fixed_window_witness:
  "callCounts (new_RateLimitMiddleware (5 / 2) 10) ''echo'' = None
   \<and> 9 \<le> 0 + windowMs (new_RateLimitMiddleware (5 / 2) 10)
   \<and> 10 \<le> 0 + windowMs (new_RateLimitMiddleware (5 / 2) 10)
   \<and> fst (rateLimit_beforeToolCall 0 ''echo'' (new_RateLimitMiddleware (5 / 2) 10)) = Inr ()
   \<and> 1 \<le> passed_for (new_RateLimitMiddleware (5 / 2) 10)
            [(0, ''echo''), (9, ''echo''), (5, ''other''), (10, ''echo''), (10, ''echo'')]
            ''echo''
   \<and> passed_for (new_RateLimitMiddleware (5 / 2) 10)
        [(0, ''echo''), (9, ''echo''), (5, ''other''), (10, ''echo''), (10, ''echo'')] ''echo''
       \<le> 3"
proof -
  let ?rl = "new_RateLimitMiddleware (5 / 2) 10"
  let ?calls = "[(9, ''echo''), (5, ''other''), (10, ''echo''), (10, ''echo'')]"
  have opens: "callCounts ?rl ''echo'' = None
      \<or> (\<exists>rec. callCounts ?rl ''echo'' = Some rec \<and> resetTime rec < 0)"
    by (simp add: new_RateLimitMiddleware_def)
  have inside: "\<forall>(t, n) \<in> set ?calls. n = ''echo'' \<longrightarrow> t \<le> 0 + windowMs ?rl"
    by (simp add: new_RateLimitMiddleware_def)
  have "\<lceil>5 / 2 :: rat\<rceil> = 3" by (rule ceiling_unique) simp_all
  then have ceil: "max 1 \<lceil>maxCalls ?rl\<rceil> = 3"
    by (simp add: new_RateLimitMiddleware_def)
  from rateLimit_fixed_window [OF opens inside]
  have "fst (rateLimit_beforeToolCall 0 ''echo'' ?rl) = Inr ()
      \<and> 1 \<le> passed_for ?rl ((0, ''echo'') # ?calls) ''echo''
      \<and> passed_for ?rl ((0, ''echo'') # ?calls) ''echo'' \<le> max 1 \<lceil>maxCalls ?rl\<rceil>"
    by simp
  with ceil show ?thesis by (simp add: new_RateLimitMiddleware_def)
qed

text \<open>
  With \<open>maxCalls = 2\<close> and \<open>windowMs = 10\<close>, calls at times 0, 9, 11 and 12 all
  pass (the call at 11 opens a new fixed window), so three calls pass within the
  window \<open>[9, 19)\<close>. With \<open>maxCalls = 0\<close> the first call of a tool passes. With
  \<open>maxCalls = 5/2\<close> three calls pass at the same instant.
\<close>

theorem rateLimit_sliding_window_counterexample:
  "passed_in_window (new_RateLimitMiddleware 2 10)
     [(0, ''echo''), (9, ''echo''), (11, ''echo''), (12, ''echo'')] ''echo'' 9 = 3
   \<and> \<not> 3 \<le> maxCalls (new_RateLimitMiddleware 2 10)
   \<and> passed_in_window (new_RateLimitMiddleware 0 10) [(0, ''echo'')] ''echo'' 0 = 1
   \<and> \<not> 1 \<le> maxCalls (new_RateLimitMiddleware 0 10)
   \<and> passed_in_window (new_RateLimitMiddleware (5 / 2) 10)
       [(0, ''echo''), (0, ''echo''), (0, ''echo''), (0, ''echo'')] ''echo'' 0 = 3
   \<and> \<not> 3 \<le> maxCalls (new_RateLimitMiddleware (5 / 2) 10)"
  by (simp add: passed_in_window_def new_RateLimitMiddleware_def
      rateLimit_beforeToolCall_def Let_def)

section \<open>Properties of the plugin host\<close>

lemma update_absent: "map_of xs k = None \<Longrightarrow> AList.update k v xs = xs @ [(k, v)]"
  by (induction xs) (auto split: if_splits)

lemma shutdown_calls_append: "shutdown_calls (xs @ ys) = shutdown_calls xs @ shutdown_calls ys"
  by (induction xs rule: shutdown_calls.induct) simp_all

lemma ctx_registerTool:
  "registerTool (createPluginContext pid cfg) t pm =
     (Inr (), emit (Logged LDebug (''Registered tool: '' @ pid @ '':'' @ tool_name t))
                (pm\<lparr>tools := AList.update (pid @ '':'' @ tool_name t) t (tools pm)\<rparr>))"
  by (simp add: createPluginContext_def Let_def)

lemma ctx_registerResource:
  "registerResource (createPluginContext pid cfg) r pm =
     (Inr (), emit (Logged LDebug (''Registered resource: '' @ uri r))
                (pm\<lparr>resources := AList.update (uri r) r (resources pm)\<rparr>))"
  by (simp add: createPluginContext_def)

lemma ctx_registerPrompt:
  "registerPrompt (createPluginContext pid cfg) p pm =
     (Inr (), emit (Logged LDebug (''Registered prompt: '' @ pid @ '':'' @ prompt_name p))
                (pm\<lparr>prompts := AList.update (pid @ '':'' @ prompt_name p) p (prompts pm)\<rparr>))"
  by (simp add: createPluginContext_def Let_def)

lemmas ctx_register = ctx_registerTool ctx_registerResource ctx_registerPrompt

lemma emit_fields:
  "plugins (emit e pm) = plugins pm" "tools (emit e pm) = tools pm"
  "resources (emit e pm) = resources pm" "prompts (emit e pm) = prompts pm"
  "workflowStates (emit e pm) = workflowStates pm" "events (emit e pm) = events pm @ [e]"
  by (simp_all add: emit_def)

lemma run_initialize_plugins:
  "plugins (snd (run_initialize (createPluginContext pid cfg) steps pm)) = plugins pm"
proof (induction steps arbitrary: pm)
  case Nil
  then show ?case by simp
next
  case (Cons s steps)
  show ?case
    by (cases s) (simp_all add: ctx_register emit_fields Cons.IH)
qed

lemma registerPlugin_appends:
  assumes "registerPlugin p cfg pm = (Inr (), pm')"
  shows "\<exists>md. metadata p = Some md \<and> plugins pm' = plugins pm @ [(plugin_id md, p)]"
proof (cases "metadata p")
  case None
  with assms show ?thesis
    by (simp add: registerPlugin_def registerPlugin_body_def)
next
  case (Some md)
  let ?run = "run_initialize (createPluginContext (plugin_id md) cfg) (initialize p) pm"
  from assms Some have fresh: "map_of (plugins pm) (plugin_id md) = None"
    by (auto simp: registerPlugin_def registerPlugin_body_def split: if_splits)
  from assms Some have "plugins pm' = AList.update (plugin_id md) p (plugins (snd ?run))"
    by (auto simp: registerPlugin_def registerPlugin_body_def emit_fields
        split: if_splits prod.splits sum.splits)
  then have "plugins pm' = AList.update (plugin_id md) p (plugins pm)"
    by (simp add: run_initialize_plugins)
  with fresh Some show ?thesis by (simp add: update_absent)
qed

lemma shutdown_loop_calls:
  "shutdown_calls (events (shutdown_loop ps pm)) =
     shutdown_calls (events pm) @ map fst (filter (\<lambda>(n, q). shutdown q \<noteq> None) ps)"
proof (induction ps arbitrary: pm)
  case Nil
  then show ?case by simp
next
  case (Cons a ps)
  obtain n q where a: "a = (n, q)" by (cases a)
  show ?case
  proof (cases "shutdown q")
    case None
    with a show ?thesis by (simp add: Cons.IH)
  next
    case (Some outcome)
    with a show ?thesis
      by (cases outcome) (simp_all add: Cons.IH emit_def shutdown_calls_append)
  qed
qed

lemma shutdown_loop_keeps_events: "set (events pm) \<subseteq> set (events (shutdown_loop ps pm))"
proof (induction ps arbitrary: pm)
  case Nil
  then show ?case by simp
next
  case (Cons a ps)
  obtain n q where a: "a = (n, q)" by (cases a)
  show ?case
  proof (cases "shutdown q")
    case None
    with a show ?thesis using Cons.IH [of pm] by simp
  next
    case (Some outcome)
    show ?thesis
    proof (cases outcome)
      case (Inl e)
      let ?pm = "emit (Logged LError (''Failed to shutdown plugin '' @ n @ '':''))
                   (emit (ShutdownCalled n) pm)"
      have "set (events pm) \<subseteq> set (events ?pm)" by (auto simp: emit_def)
      also have "\<dots> \<subseteq> set (events (shutdown_loop ps ?pm))" by (rule Cons.IH)
      finally show ?thesis using a Some Inl by simp
    next
      case (Inr u)
      let ?pm = "emit (Logged LInfo (''Shutdown plugin: '' @ n)) (emit (ShutdownCalled n) pm)"
      have "set (events pm) \<subseteq> set (events ?pm)" by (auto simp: emit_def)
      also have "\<dots> \<subseteq> set (events (shutdown_loop ps ?pm))" by (rule Cons.IH)
      finally show ?thesis using a Some Inr by simp
    qed
  qed
qed

lemma shutdown_loop_logs_failure:
  assumes "(n, q) \<in> set ps" and "shutdown q = Some (Inl e)"
  shows "Logged LError (''Failed to shutdown plugin '' @ n @ '':'')
           \<in> set (events (shutdown_loop ps pm))"
  using assms(1)
proof (induction ps arbitrary: pm)
  case Nil
  then show ?case by simp
next
  case (Cons a ps)
  obtain m r where a: "a = (m, r)" by (cases a)
  show ?case
  proof (cases "a = (n, q)")
    case True
    let ?pm = "emit (Logged LError (''Failed to shutdown plugin '' @ n @ '':''))
                 (emit (ShutdownCalled n) pm)"
    have "Logged LError (''Failed to shutdown plugin '' @ n @ '':'') \<in> set (events ?pm)"
      by (simp add: emit_def)
    then have "Logged LError (''Failed to shutdown plugin '' @ n @ '':'')
        \<in> set (events (shutdown_loop ps ?pm))"
      using shutdown_loop_keeps_events [of ?pm ps] by blast
    with True assms(2) show ?thesis by simp
  next
    case False
    with Cons.prems have mem: "(n, q) \<in> set ps" by simp
    show ?thesis
    proof (cases "shutdown r")
      case None
      with a show ?thesis using Cons.IH [OF mem] by simp
    next
      case (Some outcome)
      with a show ?thesis using Cons.IH [OF mem] by (cases outcome) simp_all
    qed
  qed
qed

lemma shutdownPlugins_events:
  "events (shutdownPlugins pm) = events (shutdown_loop (plugins pm) pm)"
  by (simp add: shutdownPlugins_def)

text \<open>
  C6 (as the code has it). A successful registration puts the plugin last in the
  host's plugin map. On shutdown the host calls each registered plugin's optional
  \<^verbatim>\<open>shutdown\<close> once, in registration order (the map's iteration order), and a
  \<^verbatim>\<open>shutdown\<close> that throws is logged as an error and does not keep the later ones
  from being called.
\<close>

theorem shutdownPlugins_registration_order:
  "(registerPlugin p cfg pm0 = (Inr (), pm) \<longrightarrow>
      (\<exists>md. metadata p = Some md \<and> plugins pm = plugins pm0 @ [(plugin_id md, p)]))
   \<and> shutdown_calls (events (shutdownPlugins pm)) =
       shutdown_calls (events pm) @ map fst (filter (\<lambda>(n, q). shutdown q \<noteq> None) (plugins pm))
   \<and> ((n, q) \<in> set (plugins pm) \<and> shutdown q = Some (Inl e) \<longrightarrow>
       Logged LError (''Failed to shutdown plugin '' @ n @ '':'')
         \<in> set (events (shutdownPlugins pm)))"
proof (intro conjI impI)
  assume "registerPlugin p cfg pm0 = (Inr (), pm)"
  then show "\<exists>md. metadata p = Some md \<and> plugins pm = plugins pm0 @ [(plugin_id md, p)]"
    by (rule registerPlugin_appends)
next
  show "shutdown_calls (events (shutdownPlugins pm)) =
      shutdown_calls (events pm) @ map fst (filter (\<lambda>(n, q). shutdown q \<noteq> None) (plugins pm))"
    by (simp only: shutdownPlugins_events shutdown_loop_calls)
next
  assume "(n, q) \<in> set (plugins pm) \<and> shutdown q = Some (Inl e)"
  then show "Logged LError (''Failed to shutdown plugin '' @ n @ '':'')
      \<in> set (events (shutdownPlugins pm))"
    by (simp only: shutdownPlugins_events) (blast intro: shutdown_loop_logs_failure)
qed
lemma host_a_value:
  "host_a =
     \<lparr>plugins = [(''a'', bare_plugin ''a'' (Some (Inl (Error ''boom''))))],
      tools = [], resources = [], prompts = [], currentRequestContext = None,
      workflowStates = [], events = [Logged LInfo ''Registered plugin: a v1.0.0'']\<rparr>"
  by (simp add: host_a_def registerPlugin_def registerPlugin_body_def bare_plugin_def
      new_PluginManager_def emit_def)

lemma register_b:
  "registerPlugin (bare_plugin ''b'' (Some (Inr ()))) JUndefined host_a = (Inr (), host_ab)"
proof -
  have "fst (registerPlugin (bare_plugin ''b'' (Some (Inr ()))) JUndefined host_a) = Inr ()"
    by (simp add: host_a_value registerPlugin_def registerPlugin_body_def bare_plugin_def
        emit_def)
  then show ?thesis by (simp add: host_ab_def prod_eq_iff)
qed

lemma host_ab_value:
  "host_ab =
     \<lparr>plugins = [(''a'', bare_plugin ''a'' (Some (Inl (Error ''boom'')))),
                 (''b'', bare_plugin ''b'' (Some (Inr ())))],
      tools = [], resources = [], prompts = [], currentRequestContext = None,
      workflowStates = [],
      events = [Logged LInfo ''Registered plugin: a v1.0.0'',
                Logged LInfo ''Registered plugin: b v1.0.0'']\<rparr>"
  by (simp add: host_ab_def host_a_value registerPlugin_def registerPlugin_body_def
      bare_plugin_def emit_def)

theorem shutdownPlugins_registration_order_witness:
  "registerPlugin (bare_plugin ''b'' (Some (Inr ()))) JUndefined host_a = (Inr (), host_ab)
   \<and> plugins host_ab = plugins host_a @ [(''b'', bare_plugin ''b'' (Some (Inr ())))]
   \<and> shutdown_calls (events (shutdownPlugins host_ab)) = [''a'', ''b'']
   \<and> (''a'', bare_plugin ''a'' (Some (Inl (Error ''boom'')))) \<in> set (plugins host_ab)
   \<and> shutdown (bare_plugin ''a'' (Some (Inl (Error ''boom'')))) = Some (Inl (Error ''boom''))
   \<and> Logged LError ''Failed to shutdown plugin a:'' \<in> set (events (shutdownPlugins host_ab))"
proof -
  let ?a = "bare_plugin ''a'' (Some (Inl (Error ''boom'')))"
  let ?b = "bare_plugin ''b'' (Some (Inr ()))"
  note inst = shutdownPlugins_registration_order
    [of ?b JUndefined host_a host_ab "''a''" ?a "Error ''boom''"]
  have mem: "(''a'', ?a) \<in> set (plugins host_ab)" by (simp add: host_ab_value)
  have sd: "shutdown ?a = Some (Inl (Error ''boom''))" by (simp add: bare_plugin_def)
  from inst register_b
  have "\<exists>md. metadata ?b = Some md \<and> plugins host_ab = plugins host_a @ [(plugin_id md, ?b)]"
    by blast
  then have order: "plugins host_ab = plugins host_a @ [(''b'', ?b)]"
    by (auto simp: bare_plugin_def)
  from inst have "shutdown_calls (events (shutdownPlugins host_ab)) =
      shutdown_calls (events host_ab)
        @ map fst (filter (\<lambda>(n, q). shutdown q \<noteq> None) (plugins host_ab))"
    by blast
  then have calls: "shutdown_calls (events (shutdownPlugins host_ab)) = [''a'', ''b'']"
    by (simp add: host_ab_value bare_plugin_def)
  from inst mem sd
  have "Logged LError (''Failed to shutdown plugin '' @ ''a'' @ '':'')
      \<in> set (events (shutdownPlugins host_ab))"
    by blast
  then have logged: "Logged LError ''Failed to shutdown plugin a:''
      \<in> set (events (shutdownPlugins host_ab))"
    by simp
  from register_b order calls mem sd logged show ?thesis by blast
qed

text \<open>
  With \<^verbatim>\<open>a\<close> registered before \<^verbatim>\<open>b\<close>, the host calls \<^verbatim>\<open>a\<close>'s
  \<^verbatim>\<open>shutdown\<close> first: the order of the calls is the registration order, not its
  reverse.
\<close>

theorem shutdownPlugins_reverse_order_counterexample:
  "getLoadedPluginNames host_ab = [''a'', ''b'']
   \<and> shutdown_calls (events (shutdownPlugins host_ab)) = [''a'', ''b'']
   \<and> shutdown_calls (events (shutdownPlugins host_ab)) \<noteq> rev (getLoadedPluginNames host_ab)"
  by (simp add: host_ab_value getLoadedPluginNames_def shutdownPlugins_def bare_plugin_def
      emit_def)

lemma shutdown_loop_registries:
  "plugins (shutdown_loop ps pm) = plugins pm \<and> tools (shutdown_loop ps pm) = tools pm
   \<and> resources (shutdown_loop ps pm) = resources pm \<and> prompts (shutdown_loop ps pm) = prompts pm"
proof (induction ps arbitrary: pm)
  case Nil
  then show ?case by simp
next
  case (Cons a ps)
  obtain n q where a: "a = (n, q)" by (cases a)
  show ?case
  proof (cases "shutdown q")
    case None
    with a show ?thesis by (simp add: Cons.IH)
  next
    case (Some outcome)
    with a show ?thesis by (cases outcome) (simp_all add: Cons.IH emit_fields)
  qed
qed

text \<open>
  C7 (as the code has it). Whatever the prior state and whether or not the
  registration succeeds, \<^verbatim>\<open>register(plugin)\<close> followed by \<^verbatim>\<open>shutdown()\<close> leaves
  the plugin, tool, resource and prompt registries (and the workflow states) empty;
  this is the pre-registration state exactly when the registries were empty before.
\<close>

theorem register_then_shutdown_empties:
  "registries (shutdownPlugins (snd (registerPlugin p cfg pm))) = ([], [], [], [])
   \<and> workflowStates (shutdownPlugins (snd (registerPlugin p cfg pm))) = []
   \<and> (registries (shutdownPlugins (snd (registerPlugin p cfg pm))) = registries pm)
       = (registries pm = ([], [], [], []))"
proof -
  have empty: "registries (shutdownPlugins pm') = ([], [], [], [])" for pm'
    by (simp add: registries_def shutdownPlugins_def)
  have ws: "workflowStates (shutdownPlugins pm') = []" for pm'
    by (simp add: shutdownPlugins_def)
  show ?thesis
    by (simp only: empty ws) auto
qed

text \<open>
  Registering \<^verbatim>\<open>b\<close> on a host that already holds \<^verbatim>\<open>a\<close> and shutting down leaves
  no plugin registered, while \<^verbatim>\<open>a\<close> was registered before.
\<close>

theorem register_then_shutdown_counterexample:
  "getLoadedPluginNames host_a = [''a'']
   \<and> getLoadedPluginNames
        (shutdownPlugins (snd (registerPlugin (bare_plugin ''b'' (Some (Inr ()))) JUndefined host_a)))
      = []
   \<and> registries
        (shutdownPlugins (snd (registerPlugin (bare_plugin ''b'' (Some (Inr ()))) JUndefined host_a)))
      \<noteq> registries host_a"
  by (simp add: host_a_value getLoadedPluginNames_def shutdownPlugins_def registries_def)

lemma map_of_update_same: "map_of (AList.update k v xs) k = Some v"
  by (simp add: AList.update_conv')

text \<open>
  C4 (as the code has it). The registration context is not sealed. After
  \<^verbatim>\<open>registerPlugin\<close> has returned, a call of that context's \<^verbatim>\<open>registerTool\<close>,
  \<^verbatim>\<open>registerResource\<close> or \<^verbatim>\<open>registerPrompt\<close> returns normally and puts the entry
  into the registry, under \<open>pluginId:name\<close> for a tool or a prompt and under the
  bare uri for a resource. Only the context handed to handlers rejects registration.
\<close>

theorem registration_context_stays_open:
  assumes "registerPlugin p cfg pm = (Inr (), pm')" and "metadata p = Some md"
  shows "fst (registerTool (createPluginContext (plugin_id md) cfg) t pm') = Inr ()
     \<and> getTool (snd (registerTool (createPluginContext (plugin_id md) cfg) t pm'))
         (plugin_id md @ '':'' @ tool_name t) = Some t
     \<and> fst (registerResource (createPluginContext (plugin_id md) cfg) r pm') = Inr ()
     \<and> getResource (snd (registerResource (createPluginContext (plugin_id md) cfg) r pm'))
         (uri r) = Some r
     \<and> fst (registerPrompt (createPluginContext (plugin_id md) cfg) pr pm') = Inr ()
     \<and> getPrompt (snd (registerPrompt (createPluginContext (plugin_id md) cfg) pr pm'))
         (plugin_id md @ '':'' @ prompt_name pr) = Some pr
     \<and> registerTool createToolExecutionContext t pm'
         = (Inl (Error ''Cannot register tools during execution''), pm')
     \<and> registerResource createToolExecutionContext r pm'
         = (Inl (Error ''Cannot register resources during execution''), pm')
     \<and> registerPrompt createToolExecutionContext pr pm'
         = (Inl (Error ''Cannot register prompts during execution''), pm')"
  by (simp add: ctx_register emit_fields getTool_def getResource_def getPrompt_def
      map_of_update_same createToolExecutionContext_def)

lemma register_demo:
  "registerPlugin demo_plugin JUndefined new_PluginManager = (Inr (), host_demo)"
proof -
  have "fst (registerPlugin demo_plugin JUndefined new_PluginManager) = Inr ()"
    by (simp add: registerPlugin_def registerPlugin_body_def demo_plugin_def
        new_PluginManager_def ctx_register split: prod.splits)
  then show ?thesis by (simp add: host_demo_def prod_eq_iff)
qed

theorem registration_context_stays_open_witness:
  "registerPlugin demo_plugin JUndefined new_PluginManager = (Inr (), host_demo)
   \<and> metadata demo_plugin
       = Some \<lparr>plugin_id = ''demo'', plugin_name = ''Demo'', version = ''1.0.0''\<rparr>
   \<and> fst (registerTool (createPluginContext ''demo'' JUndefined) shout_tool host_demo) = Inr ()
   \<and> getTool (snd (registerTool (createPluginContext ''demo'' JUndefined) shout_tool host_demo))
        ''demo:shout'' = Some shout_tool"
proof -
  let ?md = "\<lparr>plugin_id = ''demo'', plugin_name = ''Demo'', version = ''1.0.0''\<rparr>"
  have md: "metadata demo_plugin = Some ?md" by (simp add: demo_plugin_def)
  from registration_context_stays_open [OF register_demo md, of shout_tool]
  have "fst (registerTool (createPluginContext (plugin_id ?md) JUndefined) shout_tool host_demo)
          = Inr ()
      \<and> getTool (snd (registerTool (createPluginContext (plugin_id ?md) JUndefined) shout_tool
                        host_demo))
          (plugin_id ?md @ '':'' @ tool_name shout_tool) = Some shout_tool"
    by blast
  then have "fst (registerTool (createPluginContext ''demo'' JUndefined) shout_tool host_demo)
          = Inr ()
      \<and> getTool (snd (registerTool (createPluginContext ''demo'' JUndefined) shout_tool host_demo))
          ''demo:shout'' = Some shout_tool"
    by (simp add: shout_tool_def)
  with register_demo md show ?thesis by blast
qed

text \<open>
  After \<^verbatim>\<open>demo\<close> has been registered, a call of its registration context's
  \<^verbatim>\<open>registerTool\<close> does not fail: it adds \<^verbatim>\<open>demo:shout\<close>, which was not in the
  tool registry before.
\<close>

theorem registration_context_sealed_counterexample:
  "fst (registerPlugin demo_plugin JUndefined new_PluginManager) = Inr ()
   \<and> getTool host_demo ''demo:shout'' = None
   \<and> fst (registerTool (createPluginContext ''demo'' JUndefined) shout_tool host_demo) = Inr ()
   \<and> getTool (snd (registerTool (createPluginContext ''demo'' JUndefined) shout_tool host_demo))
        ''demo:shout'' \<noteq> None"
  by (simp add: host_demo_def registerPlugin_def registerPlugin_body_def demo_plugin_def
      new_PluginManager_def createPluginContext_def emit_def getTool_def shout_tool_def
      echo_tool_def Let_def)

section \<open>Properties of the middleware pipeline\<close>

lemma hooked_Cons:
  "hooked hook (m # ms) = (if hook m = None then hooked hook ms else mw_name m # hooked hook ms)"
  by (simp add: hooked_def)

lemma run_beforeToolCall_trace:
  "run_beforeToolCall mws name args (tr, w) = (Inr u, tr', w') \<Longrightarrow>
   tr' = tr @ map (\<lambda>m. BeforeToolCall m name) (hooked beforeToolCall mws)"
proof (induction mws arbitrary: tr w)
  case Nil
  then show ?case by (simp add: hooked_def)
next
  case (Cons m ms)
  show ?case
  proof (cases "beforeToolCall m")
    case None
    with Cons.prems have "run_beforeToolCall ms name args (tr, w) = (Inr u, tr', w')" by simp
    from Cons.IH [OF this] None show ?thesis by (simp add: hooked_Cons)
  next
    case (Some hook)
    obtain r w1 where h: "hook name args w = (r, w1)" by (cases "hook name args w")
    show ?thesis
    proof (cases r)
      case (Inl e)
      with Cons.prems Some h show ?thesis by simp
    next
      case (Inr v)
      with Cons.prems Some h
      have rec: "run_beforeToolCall ms name args (tr @ [BeforeToolCall (mw_name m) name], w1)
          = (Inr u, tr', w')"
        by simp
      from Cons.IH [OF rec] Some show ?thesis by (simp add: hooked_Cons)
    qed
  qed
qed

lemma run_beforeToolCall_failure_trace:
  "run_beforeToolCall mws name args (tr, w) = (Inl e, tr', w') \<Longrightarrow>
   \<exists>k < length (hooked beforeToolCall mws).
      tr' = tr @ map (\<lambda>m. BeforeToolCall m name) (take (Suc k) (hooked beforeToolCall mws))"
proof (induction mws arbitrary: tr w)
  case Nil
  then show ?case by simp
next
  case (Cons m ms)
  show ?case
  proof (cases "beforeToolCall m")
    case None
    with Cons.prems have "run_beforeToolCall ms name args (tr, w) = (Inl e, tr', w')" by simp
    from Cons.IH [OF this] None show ?thesis by (simp add: hooked_Cons)
  next
    case (Some hook)
    then have hk: "hooked beforeToolCall (m # ms) = mw_name m # hooked beforeToolCall ms"
      by (simp add: hooked_Cons)
    obtain r w1 where h: "hook name args w = (r, w1)" by (cases "hook name args w")
    show ?thesis
    proof (cases r)
      case (Inl e')
      with Cons.prems Some h have "tr' = tr @ [BeforeToolCall (mw_name m) name]" by simp
      then have "0 < length (hooked beforeToolCall (m # ms)) \<and>
          tr' = tr @ map (\<lambda>m. BeforeToolCall m name)
                       (take (Suc 0) (hooked beforeToolCall (m # ms)))"
        by (simp add: hk)
      then show ?thesis by blast
    next
      case (Inr v)
      with Cons.prems Some h
      have rec: "run_beforeToolCall ms name args (tr @ [BeforeToolCall (mw_name m) name], w1)
          = (Inl e, tr', w')"
        by simp
      from Cons.IH [OF rec] obtain k where k: "k < length (hooked beforeToolCall ms)"
        "tr' = (tr @ [BeforeToolCall (mw_name m) name])
                 @ map (\<lambda>m. BeforeToolCall m name) (take (Suc k) (hooked beforeToolCall ms))"
        by blast
      then have "Suc k < length (hooked beforeToolCall (m # ms)) \<and>
          tr' = tr @ map (\<lambda>m. BeforeToolCall m name)
                       (take (Suc (Suc k)) (hooked beforeToolCall (m # ms)))"
        by (simp add: hk)
      then show ?thesis by blast
    qed
  qed
qed

lemma run_afterToolCall_trace:
  "run_afterToolCall mws name args result (tr, w) = (Inr u, tr', w') \<Longrightarrow>
   tr' = tr @ map (\<lambda>m. AfterToolCall m name) (hooked afterToolCall mws)"
proof (induction mws arbitrary: tr w)
  case Nil
  then show ?case by (simp add: hooked_def)
next
  case (Cons m ms)
  show ?case
  proof (cases "afterToolCall m")
    case None
    with Cons.prems have "run_afterToolCall ms name args result (tr, w) = (Inr u, tr', w')"
      by simp
    from Cons.IH [OF this] None show ?thesis by (simp add: hooked_Cons)
  next
    case (Some hook)
    obtain r w1 where h: "hook name args result w = (r, w1)"
      by (cases "hook name args result w")
    show ?thesis
    proof (cases r)
      case (Inl e)
      with Cons.prems Some h show ?thesis by simp
    next
      case (Inr v)
      with Cons.prems Some h
      have rec: "run_afterToolCall ms name args result
          (tr @ [AfterToolCall (mw_name m) name], w1) = (Inr u, tr', w')"
        by simp
      from Cons.IH [OF rec] Some show ?thesis by (simp add: hooked_Cons)
    qed
  qed
qed

lemma run_onError_trace:
  "run_onError mws error name (tr, w) = (Inr u, tr', w') \<Longrightarrow>
   tr' = tr @ map (\<lambda>m. OnError m name) (hooked onError mws)"
proof (induction mws arbitrary: tr w)
  case Nil
  then show ?case by (simp add: hooked_def)
next
  case (Cons m ms)
  show ?case
  proof (cases "onError m")
    case None
    with Cons.prems have "run_onError ms error name (tr, w) = (Inr u, tr', w')" by simp
    from Cons.IH [OF this] None show ?thesis by (simp add: hooked_Cons)
  next
    case (Some hook)
    obtain r w1 where h: "hook error ''tool'' name w = (r, w1)"
      by (cases "hook error ''tool'' name w")
    show ?thesis
    proof (cases r)
      case (Inl e)
      with Cons.prems Some h show ?thesis by simp
    next
      case (Inr v)
      with Cons.prems Some h
      have rec: "run_onError ms error name (tr @ [OnError (mw_name m) name], w1)
          = (Inr u, tr', w')"
        by simp
      from Cons.IH [OF rec] Some show ?thesis by (simp add: hooked_Cons)
    qed
  qed
qed

text \<open>
  On the stdio path a call that succeeds has run every \<^verbatim>\<open>beforeToolCall\<close> in
  registration order, then the handler, then every \<^verbatim>\<open>afterToolCall\<close> in
  registration order.
\<close>

lemma callToolRequestHandler_success_trace:
  assumes "callToolRequestHandler srv name args w = (Inr c, tr, w')"
  shows "tr = map (\<lambda>m. BeforeToolCall m name) (hooked beforeToolCall (middleware srv))
            @ [HandlerCalled name]
            @ map (\<lambda>m. AfterToolCall m name) (hooked afterToolCall (middleware srv))"
proof -
  from assms obtain t where t: "getTool (pluginManager srv) name = Some t"
    by (auto simp: callToolRequestHandler_def split: option.splits)
  with assms have body: "callTool_try (middleware srv) t name args w = (Inr c, tr, w')"
    by (auto simp: callToolRequestHandler_def split: prod.splits sum.splits)
  obtain r1 tr1 w1 where b: "run_beforeToolCall (middleware srv) name args ([], w) = (r1, tr1, w1)"
    by (cases "run_beforeToolCall (middleware srv) name args ([], w)")
  with body obtain u where r1: "r1 = Inr u"
    by (cases r1) (auto simp: callTool_try_def)
  from run_beforeToolCall_trace [OF b [unfolded r1]]
  have tr1: "tr1 = map (\<lambda>m. BeforeToolCall m name) (hooked beforeToolCall (middleware srv))"
    by simp
  from body b r1 obtain result where res: "handler t args = Inr result"
    by (cases "handler t args") (auto simp: callTool_try_def)
  with body b r1 obtain u' where
    a: "run_afterToolCall (middleware srv) name args result (tr1 @ [HandlerCalled name], w1)
          = (Inr u', tr, w')"
    by (auto simp: callTool_try_def split: prod.splits sum.splits)
  from run_afterToolCall_trace [OF a] tr1 show ?thesis by simp
qed

text \<open>
  On the stdio path a \<^verbatim>\<open>beforeToolCall\<close> that throws keeps the handler from being
  called, and when no \<^verbatim>\<open>onError\<close> hook throws, every \<^verbatim>\<open>onError\<close> runs in
  registration order after the failure and an internal error is propagated.
\<close>

lemma callToolRequestHandler_before_failure:
  assumes "getTool (pluginManager srv) name = Some t"
    and "run_beforeToolCall (middleware srv) name args ([], w) = (Inl e, tr1, w1)"
    and "run_onError (middleware srv) e name
           (tr1 @ [Logged LError (''Tool execution failed: '' @ name)], w1) = (Inr u, tr, w')"
  shows "callToolRequestHandler srv name args w
           = (Inl (McpError InternalError (''Tool execution failed: '' @ error_message e)), tr, w')
         \<and> HandlerCalled name \<notin> set tr
         \<and> tr = tr1 @ [Logged LError (''Tool execution failed: '' @ name)]
                  @ map (\<lambda>m. OnError m name) (hooked onError (middleware srv))"
proof -
  from run_beforeToolCall_failure_trace [OF assms(2)]
  have "HandlerCalled name \<notin> set tr1" by auto
  moreover from run_onError_trace [OF assms(3)]
  have "tr = tr1 @ [Logged LError (''Tool execution failed: '' @ name)]
               @ map (\<lambda>m. OnError m name) (hooked onError (middleware srv))"
    by simp
  moreover have "callToolRequestHandler srv name args w
      = (Inl (McpError InternalError (''Tool execution failed: '' @ error_message e)), tr, w')"
    using assms by (simp add: callToolRequestHandler_def callTool_try_def)
  ultimately show ?thesis by auto
qed

text \<open>
  On the HTTP and WebSocket path no hook is ever called: the outcome does not depend
  on the configured middleware, the hooks' state is untouched, and the only event is
  the call of the handler.
\<close>

lemma handleToolCall_ignores_middleware:
  "handleToolCall srv name args w = handleToolCall (srv\<lparr>middleware := []\<rparr>) name args w
   \<and> snd (snd (handleToolCall srv name args w)) = w
   \<and> set (fst (snd (handleToolCall srv name args w))) \<subseteq> {HandlerCalled name}"
  by (simp add: handleToolCall_def split: option.splits sum.splits)

lemma echo_tool_name: "tool_name echo_tool = ''echo''"
  by (simp add: echo_tool_def)

lemma show_int_codes: "show_int (- 32601) = ''-32601''" "show_int (- 32603) = ''-32603''"
  by (simp_all add: show_int_def show_nat.simps)

lemma host_demo_tool: "getTool host_demo ''demo:echo'' = Some echo_tool"
  by (simp add: host_demo_def registerPlugin_def registerPlugin_body_def demo_plugin_def
      new_PluginManager_def createPluginContext_def emit_def getTool_def Let_def
      echo_tool_name)

text \<open>
  Over HTTP or WebSocket a call of an unknown tool is answered with the internal error
  code and the message of the \<^verbatim>\<open>McpError\<close> thrown.
\<close>

lemma unknown_tool_over_transport:
  "transport_toolsCall demo_server ''demo:nope'' (JObject []) () =
     (ErrorEnvelope (- 32603) ''MCP error -32601: Tool not found: demo:nope'',
      [Logged LError ''Request failed:''], ())"
proof -
  have "getTool host_demo ''demo:nope'' = None"
    by (simp add: host_demo_def registerPlugin_def registerPlugin_body_def demo_plugin_def
        new_PluginManager_def createPluginContext_def emit_def getTool_def Let_def
        echo_tool_name)
  then show ?thesis
    by (simp add: transport_toolsCall_def handleToolCall_def demo_server_def
        MethodNotFound_def show_int_codes)
qed

text \<open>
  C1. The server is configured with the logging and the validation middleware, and the
  request is \<^verbatim>\<open>tools/call\<close> of \<^verbatim>\<open>demo:echo\<close> with \<^verbatim>\<open>null\<close> arguments. On the
  stdio path the pipeline runs: both \<^verbatim>\<open>beforeToolCall\<close> hooks are called, the
  validation fails, the handler is not called, \<^verbatim>\<open>onError\<close> runs and an internal
  error is propagated. On the HTTP and WebSocket path the same request reaches the
  handler with no hook called and is answered with a result.
\<close>

theorem tools_call_transport_path_skips_pipeline:
  "callToolRequestHandler demo_server ''demo:echo'' JNull () =
     (Inl (McpError InternalError
             ''Tool execution failed: Invalid parameters for tool demo:echo: expected object''),
      [BeforeToolCall ''logging'' ''demo:echo'', BeforeToolCall ''validation'' ''demo:echo'',
       Logged LError ''Tool execution failed: demo:echo'', OnError ''logging'' ''demo:echo''],
      ())
   \<and> transport_toolsCall demo_server ''demo:echo'' JNull () =
       (ResultEnvelope (Text ''no arguments''), [HandlerCalled ''demo:echo''], ())"
  by (simp add: callToolRequestHandler_def callTool_try_def transport_toolsCall_def
      handleToolCall_def demo_server_def host_demo_tool LoggingMiddleware_def
      ValidationMiddleware_def validation_beforeToolCall_def echo_tool_def InternalError_def)

text \<open>
  The rate limiter is configured for at most two calls a minute and has counted two
  calls of \<^verbatim>\<open>demo:echo\<close> in the open window. A third call on the stdio path is
  refused with an internal error and the handler is not called; the same call over
  HTTP or WebSocket is answered with a result, and the limiter's state is untouched.
\<close>

lemma rate_limit_applied_only_on_stdio_path:
  "callToolRequestHandler limited_server ''demo:echo'' (JObject [(''text'', JString ''hi'')])
     (100, \<lparr>callCounts = [''demo:echo'' \<mapsto> \<lparr>count = 2, resetTime = 60000\<rparr>],
            maxCalls = 2, windowMs = 60000\<rparr>)
   = (Inl (McpError InternalError
             ''Tool execution failed: Rate limit exceeded for tool demo:echo''),
      [BeforeToolCall ''rate-limit'' ''demo:echo'',
       Logged LError ''Tool execution failed: demo:echo''],
      (100, \<lparr>callCounts = [''demo:echo'' \<mapsto> \<lparr>count = 2, resetTime = 60000\<rparr>],
             maxCalls = 2, windowMs = 60000\<rparr>))
   \<and> transport_toolsCall limited_server ''demo:echo'' (JObject [(''text'', JString ''hi'')])
       (100, \<lparr>callCounts = [''demo:echo'' \<mapsto> \<lparr>count = 2, resetTime = 60000\<rparr>],
              maxCalls = 2, windowMs = 60000\<rparr>)
     = (ResultEnvelope (Text ''hi''), [HandlerCalled ''demo:echo''],
        (100, \<lparr>callCounts = [''demo:echo'' \<mapsto> \<lparr>count = 2, resetTime = 60000\<rparr>],
               maxCalls = 2, windowMs = 60000\<rparr>))"
  by (simp add: callToolRequestHandler_def callTool_try_def transport_toolsCall_def
      handleToolCall_def limited_server_def host_demo_tool RateLimitMiddleware_def
      rateLimit_beforeToolCall_def echo_tool_def InternalError_def Let_def)

section \<open>Properties of the session manager\<close>

text \<open>
  C10. For a session id that is absent from the store, \<^verbatim>\<open>addMessage\<close> returns
  (the model of the in-memory store has no failing operation) and leaves the session
  manager, and so its store, as it was: no session is created and no history is
  appended.
\<close>

theorem addMessage_absent_session:
  "getSession sm sid = None \<Longrightarrow> addMessage now sid message sm = sm"
  by (simp add: addMessage_def)

theorem addMessage_absent_session_witness:
  "getSession new_SessionManager ''missing'' = None
   \<and> addMessage 5 ''missing''
        \<lparr>entry_id = 5, entry_timestamp = 5, entry_role = User, content = ''hello''\<rparr>
        new_SessionManager
      = new_SessionManager
   \<and> store (addMessage 5 ''missing''
              \<lparr>entry_id = 5, entry_timestamp = 5, entry_role = User, content = ''hello''\<rparr>
              new_SessionManager) ''missing''
      = None"
proof -
  have absent: "getSession new_SessionManager ''missing'' = None"
    by (simp add: getSession_def new_SessionManager_def)
  from addMessage_absent_session [OF absent]
  have same: "addMessage 5 ''missing''
      \<lparr>entry_id = 5, entry_timestamp = 5, entry_role = User, content = ''hello''\<rparr>
      new_SessionManager = new_SessionManager" .
  from absent same show ?thesis by (simp add: getSession_def)
qed

section \<open>Properties of the context manager\<close>

lemma update_recent_head: "update_recent w recent \<noteq> [] \<and> update_recent w recent ! 0 = w"
  by (simp add: update_recent_def Let_def)

lemma update_recent_length: "length (update_recent w recent) \<le> 10"
  by (simp add: update_recent_def Let_def)

lemma update_recent_distinct:
  assumes "distinct recent"
  shows "distinct (update_recent w recent)"
proof -
  let ?r1 = "if w \<in> set recent then remove1 w recent else recent"
  from assms have "distinct ?r1" by simp
  moreover from assms have "w \<notin> set ?r1" by simp
  ultimately have d: "distinct (w # ?r1)" by simp
  then have t: "distinct (take 10 (w # ?r1))" by (rule distinct_take)
  have "update_recent w recent = (if 10 < length (w # ?r1) then take 10 (w # ?r1) else w # ?r1)"
    by (simp add: update_recent_def Let_def)
  with d t show ?thesis by presburger
qed

lemma update_recent_eq: "update_recent w recent = take 10 (w # remove1 w recent)"
proof -
  have "w \<notin> set recent \<Longrightarrow> remove1 w recent = recent" by (rule remove1_idem)
  then show ?thesis by (auto simp: update_recent_def Let_def)
qed

text \<open>
  C9 (as the code has it). Let \<open>w\<close> be a registered workflow with a non-empty id.
  Then \<^verbatim>\<open>switchContext\<close> throws only what the workflow's context loader throws,
  and when it returns, \<^verbatim>\<open>recentWorkflows\<close> is \<open>w\<close> followed by the earlier list
  without its first occurrence of \<open>w\<close>, cut to ten entries: for every session it
  has at most ten entries and has \<open>w\<close> at index 0, and it has no duplicates when the
  earlier list was absent or had none.
\<close>

theorem switchContext_recentWorkflows:
  assumes "w \<noteq> []"
    and "registry_get (cm_registry cm) w = Some workflow"
  shows "case switchContext cm now session (Some w) initData of
           Inl e \<Rightarrow> (\<exists>loader. loaders cm w = Some loader \<and> loader w (sessionId session) = Inl e)
         | Inr session' \<Rightarrow>
             (\<exists>recent. recentWorkflows (globalContext session') = Some recent
                \<and> recent = take 10 (w # remove1 w
                             (case recentWorkflows (globalContext session) of
                                None \<Rightarrow> []
                              | Some old \<Rightarrow> old))
                \<and> length recent \<le> 10 \<and> recent \<noteq> [] \<and> recent ! 0 = w
                \<and> ((case recentWorkflows (globalContext session) of
                       None \<Rightarrow> True
                     | Some old \<Rightarrow> distinct old) \<longrightarrow> distinct recent))"
proof -
  let ?old = "case recentWorkflows (globalContext session) of None \<Rightarrow> [] | Some old \<Rightarrow> old"
  have d: "(case recentWorkflows (globalContext session) of
              None \<Rightarrow> True
            | Some old \<Rightarrow> distinct old) \<Longrightarrow> distinct (update_recent w ?old)"
  proof -
    assume "case recentWorkflows (globalContext session) of
              None \<Rightarrow> True
            | Some old \<Rightarrow> distinct old"
    then have "distinct ?old" by (simp split: option.splits)
    then show ?thesis by (rule update_recent_distinct)
  qed
  have good: "update_recent w ?old = take 10 (w # remove1 w ?old)
      \<and> length (update_recent w ?old) \<le> 10
      \<and> update_recent w ?old \<noteq> [] \<and> update_recent w ?old ! 0 = w
      \<and> ((case recentWorkflows (globalContext session) of
             None \<Rightarrow> True
           | Some old \<Rightarrow> distinct old) \<longrightarrow> distinct (update_recent w ?old))"
    using d update_recent_eq [of w ?old] update_recent_length [of w ?old]
      update_recent_head [of w ?old]
    by blast
  have thrown: "\<exists>loader. loaders cm w = Some loader \<and> loader w (sessionId session) = Inl e"
    if "switchContext cm now session (Some w) initData = Inl e" for e
    using that assms
    by (auto simp: switchContext_def split: option.splits sum.splits)
  have returned: "recentWorkflows (globalContext session') = Some (update_recent w ?old)"
    if "switchContext cm now session (Some w) initData = Inr session'" for session'
    using that assms
    by (auto simp: switchContext_def split: option.splits sum.splits)
  show ?thesis
  proof (cases "switchContext cm now session (Some w) initData")
    case (Inl e)
    with thrown [OF Inl] show ?thesis by simp
  next
    case (Inr session')
    from returned [OF Inr] good
    have "\<exists>recent. recentWorkflows (globalContext session') = Some recent
        \<and> recent = take 10 (w # remove1 w ?old)
        \<and> length recent \<le> 10 \<and> recent \<noteq> [] \<and> recent ! 0 = w
        \<and> ((case recentWorkflows (globalContext session) of
               None \<Rightarrow> True
             | Some old \<Rightarrow> distinct old) \<longrightarrow> distinct recent)"
      by blast
    with Inr show ?thesis by (simp only: sum.case)
  qed
qed

lemma session_with_recent_list:
  "recentWorkflows (globalContext (session_with_recent recent)) = Some recent"
  by (simp add: session_with_recent_def)

theorem switchContext_recentWorkflows_witness:
  "''character-creation'' \<noteq> []
   \<and> registry_get (cm_registry (contextManager orch_created)) ''character-creation''
       = Some character_creation
   \<and> distinct [''a'', ''b'', ''c'', ''d'', ''e'', ''f'', ''g'', ''h'', ''i'', ''j'']
   \<and> (case switchContext (contextManager orch_created) 2000
              (session_with_recent
                 [''a'', ''b'', ''c'', ''d'', ''e'', ''f'', ''g'', ''h'', ''i'', ''j''])
              (Some ''character-creation'') JUndefined of
         Inl e \<Rightarrow> False
       | Inr session' \<Rightarrow>
           recentWorkflows (globalContext session')
             = Some [''character-creation'', ''a'', ''b'', ''c'', ''d'', ''e'', ''f'', ''g'',
                     ''h'', ''i'']
           \<and> distinct [''character-creation'', ''a'', ''b'', ''c'', ''d'', ''e'', ''f'', ''g'',
                        ''h'', ''i''])
   \<and> (case switchContext (contextManager orch_created) 2000
              (session_with_recent [''a'', ''character-creation'', ''b''])
              (Some ''character-creation'') JUndefined of
         Inl e \<Rightarrow> False
       | Inr session' \<Rightarrow>
           recentWorkflows (globalContext session') = Some [''character-creation'', ''a'', ''b''])
   \<and> (case switchContext (contextManager orch_created) 2000
              (session_with_recent [''a'', ''a''])
              (Some ''character-creation'') JUndefined of
         Inl e \<Rightarrow> False
       | Inr session' \<Rightarrow>
           recentWorkflows (globalContext session') = Some [''character-creation'', ''a'', ''a''])"
proof -
  let ?cm = "contextManager orch_created"
  let ?w = "''character-creation''"
  let ?ten = "[''a'', ''b'', ''c'', ''d'', ''e'', ''f'', ''g'', ''h'', ''i'', ''j'']"
  have ne: "?w \<noteq> []" by simp
  have reg: "registry_get (cm_registry ?cm) ?w = Some character_creation"
    by (simp add: contextManager_def orch_created_def registerWorkflow_def new_Orchestrator_def
        registry_register_def registry_get_def character_creation_def)
  have noloader: "loaders ?cm ?w = None"
    by (simp add: contextManager_def orch_created_def registerWorkflow_def new_Orchestrator_def)
  have run: "case switchContext ?cm 2000 (session_with_recent r) (Some ?w) JUndefined of
        Inl e \<Rightarrow> False
      | Inr session' \<Rightarrow>
          recentWorkflows (globalContext session') = Some (take 10 (?w # remove1 ?w r))
          \<and> (distinct r \<longrightarrow> distinct (take 10 (?w # remove1 ?w r)))" for r
    using switchContext_recentWorkflows
        [OF ne reg, where now = 2000 and session = "session_with_recent r"
           and initData = JUndefined]
      noloader
    by (auto simp: session_with_recent_list split: sum.splits)
  have dten: "distinct ?ten" by simp
  from run [of ?ten] dten
  have r1: "case switchContext ?cm 2000 (session_with_recent ?ten) (Some ?w) JUndefined of
        Inl e \<Rightarrow> False
      | Inr session' \<Rightarrow>
          recentWorkflows (globalContext session')
            = Some [?w, ''a'', ''b'', ''c'', ''d'', ''e'', ''f'', ''g'', ''h'', ''i'']
          \<and> distinct [?w, ''a'', ''b'', ''c'', ''d'', ''e'', ''f'', ''g'', ''h'', ''i'']"
    by (simp split: sum.splits)
  from run [of "[''a'', ?w, ''b'']"]
  have r2: "case switchContext ?cm 2000 (session_with_recent [''a'', ?w, ''b'']) (Some ?w)
             JUndefined of
        Inl e \<Rightarrow> False
      | Inr session' \<Rightarrow> recentWorkflows (globalContext session') = Some [?w, ''a'', ''b'']"
    by (simp split: sum.splits)
  from run [of "[''a'', ''a'']"]
  have r3: "case switchContext ?cm 2000 (session_with_recent [''a'', ''a'']) (Some ?w)
             JUndefined of
        Inl e \<Rightarrow> False
      | Inr session' \<Rightarrow> recentWorkflows (globalContext session') = Some [?w, ''a'', ''a'']"
    by (simp split: sum.splits)
  from ne reg dten r1 r2 r3 show ?thesis by blast
qed

text \<open>
  A registered workflow whose id is the empty string is taken for no target: the
  switch goes to the general context and \<^verbatim>\<open>recentWorkflows\<close> stays empty, so
  nothing is at index 0. And a session whose list already holds \<^verbatim>\<open>w\<close> twice
  still holds it twice afterwards, as only the first occurrence is removed.
\<close>

theorem switchContext_recentWorkflows_counterexample:
  "registry_get [('''', unnamed_workflow)] '''' = Some unnamed_workflow
   \<and> (case switchContext \<lparr>cm_registry = [('''', unnamed_workflow)], loaders = Map.empty\<rparr> 2000
              sample_session (Some '''') JUndefined of
         Inl e \<Rightarrow> False
       | Inr session' \<Rightarrow> recentWorkflows (globalContext session') = Some [])
   \<and> (case switchContext (contextManager orch_created) 2000
              (sample_session\<lparr>globalContext := (globalContext sample_session)
                 \<lparr>recentWorkflows := Some [''character-creation'', ''character-creation'']\<rparr>\<rparr>)
              (Some ''character-creation'') JUndefined of
         Inl e \<Rightarrow> False
       | Inr session' \<Rightarrow>
           recentWorkflows (globalContext session')
             = Some [''character-creation'', ''character-creation'']
           \<and> \<not> distinct [''character-creation'', ''character-creation''])"
  by (simp add: switchContext_def registry_get_def sample_session_def createSession_def
      contextManager_def orch_created_def registerWorkflow_def new_Orchestrator_def
      registry_register_def character_creation_def update_recent_def Let_def)

section \<open>Properties of the orchestrator\<close>

lemma orch_in_workflow_session:
  "store (sessionManager orch_in_workflow) ''s1'' =
     Some (sample_session
       \<lparr>workflowContext := Some (basic_context 2000 ''character-creation'' character_creation
                                   JUndefined),
        activeWorkflow := Some ''character-creation'',
        currentContext := ''character-creation'',
        globalContext := (globalContext sample_session)
          \<lparr>recentWorkflows := Some [''character-creation'']\<rparr>,
        updatedAt := 2000\<rparr>)"
  by (simp add: orch_in_workflow_def switchWorkflow_def orch_created_def registerWorkflow_def
      new_Orchestrator_def new_SessionManager_def createSession_def getSession_def
      switchContext_def contextManager_def registry_register_def registry_get_def
      character_creation_def update_recent_def updateSession_def sample_session_def Let_def)

text \<open>
  In the exit branch the rule-based detector asks for a switch without a target, and
  \<^verbatim>\<open>processMessage\<close> switches only when the target is set: for every stored session
  in a workflow and every message holding an exit signal, the intent is
  \<^verbatim>\<open>exit_workflow\<close>, \<^verbatim>\<open>workflowChanged\<close> is false and the session stays in its
  workflow.
\<close>

lemma processMessage_exit_signal:
  assumes "intentDetector orch = RuleBased ex"
    and "getSession (sessionManager orch) sid = Some session"
    and "sessionId session = sid"
    and "sid \<noteq> []"
    and "truthy_string (activeWorkflow session)"
    and "list_ex (\<lambda>signal. str_includes (toLowerCase message) signal) exitSignals"
  shows "\<exists>r. fst (processMessage now freshId message (Some sid) uid uname orch) = Inr r
     \<and> map intent_name (intents (result_intent r)) = [''exit_workflow'']
     \<and> workflowChanged r = False
     \<and> activeWorkflow (result_session r) = activeWorkflow session
     \<and> currentContext (result_session r) = currentContext session"
  using assms
  by (simp add: processMessage_def getOrCreateSession_def addMessage_def updateSession_def
      getSession_def detect_def analyzeMessage_def Let_def)

text \<open>
  C2. The session \<^verbatim>\<open>s1\<close> is in the workflow \<^verbatim>\<open>character-creation\<close> and the
  message is \<^verbatim>\<open>I'm done\<close>. \<^verbatim>\<open>processMessage\<close> returns the intent
  \<^verbatim>\<open>exit_workflow\<close>, but \<^verbatim>\<open>workflowChanged\<close> is false and the session is still
  in \<^verbatim>\<open>character-creation\<close>, in the result and in the store.
\<close>

theorem processMessage_exit_signal_keeps_workflow:
  "(case processMessage 3000 ''session_3000_abcdefghi'' ''I'm done'' (Some ''s1'') (Some ''u'')
           (Some ''U'') orch_in_workflow of
      (Inl e, orch') \<Rightarrow> False
    | (Inr r, orch') \<Rightarrow>
        map intent_name (intents (result_intent r)) = [''exit_workflow'']
        \<and> shouldSwitchWorkflow (result_intent r) = True
        \<and> targetWorkflow (result_intent r) = None
        \<and> workflowChanged r = False
        \<and> activeWorkflow (result_session r) = Some ''character-creation''
        \<and> currentContext (result_session r) = ''character-creation''
        \<and> map_option activeWorkflow (getSession (sessionManager orch') ''s1'')
            = Some (Some ''character-creation''))"
proof -
  have det: "intentDetector orch_in_workflow = RuleBased no_extractors"
    by (simp add: orch_in_workflow_def switchWorkflow_def orch_created_def registerWorkflow_def
        new_Orchestrator_def new_SessionManager_def createSession_def getSession_def
        switchContext_def contextManager_def registry_register_def registry_get_def
        character_creation_def updateSession_def Let_def split: prod.splits)
  have sig: "list_ex (\<lambda>signal. str_includes (toLowerCase ''I'm done'') signal) exitSignals"
    by (simp add: exitSignals_def toLowerCase_def toLowerChar_def)
  show ?thesis
    using det sig
    by (simp add: processMessage_def getOrCreateSession_def addMessage_def updateSession_def
        orch_in_workflow_session sample_session_def createSession_def
        getSession_def detect_def analyzeMessage_def Let_def)
qed

end
